theory Spec2Isabelle
  imports Complex_Main "HOL-Library.Multiset" "HOL-Library.Product_Lexorder"
begin

section \<open>Python strings\<close>

text \<open>
  A Python \<^verbatim>\<open>str\<close> is a sequence of Unicode code points, so it is modelled as
  a list of natural numbers. Floats are modelled as exact reals.
\<close>

type_synonym pystr = "nat list"

definition py :: "string \<Rightarrow> pystr" where
  "py s = map of_char s"

text \<open>
  \<^verbatim>\<open>str.isspace\<close>, which is also the class \<^verbatim>\<open>\s\<close> of \<^verbatim>\<open>re\<close> on
  \<^verbatim>\<open>str\<close> patterns and the separator set of \<^verbatim>\<open>str.strip()\<close> and
  \<^verbatim>\<open>str.split()\<close>.
\<close>

definition py_isspace :: "nat \<Rightarrow> bool" where
  "py_isspace c \<longleftrightarrow>
     (9 \<le> c \<and> c \<le> 13) \<or> (28 \<le> c \<and> c \<le> 32) \<or> c = 133 \<or> c = 160 \<or> c = 5760 \<or>
     (8192 \<le> c \<and> c \<le> 8202) \<or> c = 8232 \<or> c = 8233 \<or> c = 8239 \<or> c = 8287 \<or>
     c = 12288"

text \<open>
  The class \<^verbatim>\<open>\w\<close> and \<^verbatim>\<open>str.lower()\<close>. The normaliser applies both only
  after every code point from 128 on has been replaced by a space, so they are
  modelled on ASCII, where \<^verbatim>\<open>\w\<close> is \<^verbatim>\<open>[A-Za-z0-9_]\<close>.
\<close>

definition re_word :: "nat \<Rightarrow> bool" where
  "re_word c \<longleftrightarrow> (48 \<le> c \<and> c \<le> 57) \<or> (65 \<le> c \<and> c \<le> 90) \<or> c = 95 \<or> (97 \<le> c \<and> c \<le> 122)"

definition py_lower :: "pystr \<Rightarrow> pystr" where
  "py_lower s = map (\<lambda>c. if 65 \<le> c \<and> c \<le> 90 then c + 32 else c) s"

definition strip_with :: "('a \<Rightarrow> bool) \<Rightarrow> 'a list \<Rightarrow> 'a list" where
  "strip_with P s = rev (dropWhile P (rev (dropWhile P s)))"

definition py_strip :: "pystr \<Rightarrow> pystr" where
  "py_strip s = strip_with py_isspace s"

text \<open>
  \<^verbatim>\<open>str.split()\<close> without arguments: the maximal runs of non-whitespace, in
  order. The first argument is the word read so far.
\<close>

fun split_from :: "pystr \<Rightarrow> pystr \<Rightarrow> pystr list" where
  "split_from w [] = (if w = [] then [] else [w])"
| "split_from w (c # cs) =
     (if py_isspace c then (if w = [] then split_from [] cs else w # split_from [] cs)
      else split_from (w @ [c]) cs)"

definition py_split :: "pystr \<Rightarrow> pystr list" where
  "py_split s = split_from [] s"

section \<open>unicodedata\<close>

text \<open>
  The tables of Python's \<^verbatim>\<open>unicodedata\<close> module are a parameter of the model:
  \<^verbatim>\<open>normalize('NFD', s)\<close>, \<^verbatim>\<open>normalize('NFC', s)\<close> and the test
  \<^verbatim>\<open>category(c) == 'Mn'\<close>.
\<close>

record unicodedata =
  normalize_NFD :: "pystr \<Rightarrow> pystr"
  normalize_NFC :: "pystr \<Rightarrow> pystr"
  category_Mn :: "nat \<Rightarrow> bool"

text \<open>
  What the Unicode standard guarantees on ASCII: a string of code points below 128 is
  its own NFD and NFC form, and no code point below 128 is a combining mark.
\<close>

definition ascii_stable :: "unicodedata \<Rightarrow> bool" where
  "ascii_stable ud \<longleftrightarrow>
     (\<forall>s. (\<forall>c \<in> set s. c < 128) \<longrightarrow> normalize_NFD ud s = s \<and> normalize_NFC ud s = s) \<and>
     (\<forall>c. c < 128 \<longrightarrow> \<not> category_Mn ud c)"

text \<open>
  A small instance of the tables, for evaluating the model on concrete names: the
  precomposed letters U+00E9 and U+00E7 with their canonical decompositions, and the
  combining diacritical marks U+0300 to U+036F as the category Mn.
\<close>

fun nfd_sample :: "pystr \<Rightarrow> pystr" where
  "nfd_sample [] = []"
| "nfd_sample (c # cs) =
     (if c = 233 then 101 # 769 # nfd_sample cs
      else if c = 231 then 99 # 807 # nfd_sample cs
      else c # nfd_sample cs)"

fun nfc_sample :: "pystr \<Rightarrow> pystr" where
  "nfc_sample (a # b # cs) =
     (if a = 101 \<and> b = 769 then 233 # nfc_sample cs
      else if a = 99 \<and> b = 807 then 231 # nfc_sample cs
      else a # nfc_sample (b # cs))"
| "nfc_sample cs = cs"

definition sample_unicodedata :: unicodedata where
  "sample_unicodedata =
     \<lparr>normalize_NFD = nfd_sample, normalize_NFC = nfc_sample,
      category_Mn = (\<lambda>c. 768 \<le> c \<and> c \<le> 879)\<rparr>"

section \<open>Name normalisation\<close>

subsection \<open>The three cleanup patterns of \<^verbatim>\<open>re.sub\<close>\<close>

text \<open>\<^verbatim>\<open>re.sub(r'[^\w\s]', ' ', s)\<close>: every single matching character becomes a space.\<close>

definition sub_punct :: "pystr \<Rightarrow> pystr" where
  "sub_punct s = map (\<lambda>c. if re_word c \<or> py_isspace c then c else 32) s"

text \<open>\<^verbatim>\<open>re.sub(r'\s+', ' ', s)\<close>: every maximal run of whitespace becomes one space.\<close>

function sub_spaces :: "pystr \<Rightarrow> pystr" where
  "sub_spaces [] = []"
| "sub_spaces (c # cs) =
     (if py_isspace c then 32 # sub_spaces (dropWhile py_isspace cs)
      else c # sub_spaces cs)"
  by pat_completeness auto
termination
  by (relation "measure length") (auto simp: le_imp_less_Suc length_dropWhile_le)

text \<open>\<^verbatim>\<open>re.sub(r'^\s+|\s+$', '', s)\<close>: the whitespace at both ends is removed.\<close>

definition sub_ends :: "pystr \<Rightarrow> pystr" where
  "sub_ends s = strip_with py_isspace s"

definition cleanup_patterns :: "(pystr \<Rightarrow> pystr) list" where
  "cleanup_patterns = [sub_punct, sub_spaces, sub_ends]"

subsection \<open>\<^verbatim>\<open>ImprovedDuplicateDetector.normalize_topic_name\<close>\<close>

definition ascii_only :: "pystr \<Rightarrow> pystr" where
  "ascii_only s = map (\<lambda>c. if c < 128 then c else 32) s"

definition normalize_topic_name :: "unicodedata \<Rightarrow> pystr \<Rightarrow> pystr" where
  "normalize_topic_name ud name =
     (if name = [] then []
      else
        let normalized = normalize_NFD ud name;
            no_accents = filter (\<lambda>c. \<not> category_Mn ud c) normalized;
            normalized = normalize_NFC ud no_accents;
            cleaned = foldl (\<lambda>cleaned sub. sub cleaned) (ascii_only normalized) cleanup_patterns
        in py_strip (py_lower cleaned))"

subsection \<open>\<^verbatim>\<open>normalize_topic_name\<close> of the bot module\<close>

definition bot_normalize_topic_name :: "unicodedata \<Rightarrow> pystr \<Rightarrow> pystr" where
  "bot_normalize_topic_name ud name =
     (if name = [] then []
      else
        let normalized = normalize_NFD ud name;
            no_accents = filter (\<lambda>c. \<not> category_Mn ud c) normalized;
            clean = sub_punct (ascii_only no_accents)
        in py_lower (py_strip (sub_spaces clean)))"

section \<open>Shape of a normalised name\<close>

definition canonical_char :: "nat \<Rightarrow> bool" where
  "canonical_char c \<longleftrightarrow> (97 \<le> c \<and> c \<le> 122) \<or> (48 \<le> c \<and> c \<le> 57) \<or> c = 32"

fun no_double_space :: "pystr \<Rightarrow> bool" where
  "no_double_space (a # b # cs) \<longleftrightarrow> \<not> (a = 32 \<and> b = 32) \<and> no_double_space (b # cs)"
| "no_double_space cs \<longleftrightarrow> True"

definition trimmed :: "pystr \<Rightarrow> bool" where
  "trimmed s \<longleftrightarrow> s = [] \<or> (hd s \<noteq> 32 \<and> last s \<noteq> 32)"

definition canonical_form :: "pystr \<Rightarrow> bool" where
  "canonical_form s \<longleftrightarrow> list_all canonical_char s \<and> trimmed s \<and> no_double_space s"

definition underscore_form :: "pystr \<Rightarrow> bool" where
  "underscore_form s \<longleftrightarrow> list_all (\<lambda>c. canonical_char c \<or> c = 95) s \<and> trimmed s \<and> no_double_space s"

lemma isspace_32 [simp]: "py_isspace 32"
  by (simp add: py_isspace_def)

lemma word_not_space: "re_word c \<Longrightarrow> \<not> py_isspace c"
  by (auto simp: re_word_def py_isspace_def)

lemma sub_punct_chars: "c \<in> set (sub_punct s) \<Longrightarrow> re_word c \<or> py_isspace c"
  by (auto simp: sub_punct_def split: if_splits)

lemma sub_spaces_chars: "c \<in> set (sub_spaces s) \<Longrightarrow> c = 32 \<or> (c \<in> set s \<and> \<not> py_isspace c)"
proof (induction s arbitrary: c rule: sub_spaces.induct)
  case 1
  then show ?case by simp
next
  case (2 d ds)
  show ?case
  proof (cases "py_isspace d")
    case True
    with 2 have "c = 32 \<or> c \<in> set (sub_spaces (dropWhile py_isspace ds))" by simp
    with 2(1)[OF True] have "c = 32 \<or> (c \<in> set (dropWhile py_isspace ds) \<and> \<not> py_isspace c)" by blast
    then show ?thesis using set_dropWhileD by fastforce
  next
    case False
    with 2 show ?thesis by auto
  qed
qed

lemma sub_spaces_hd:
  "s \<noteq> [] \<Longrightarrow> \<not> py_isspace (hd s) \<Longrightarrow> sub_spaces s \<noteq> [] \<and> hd (sub_spaces s) = hd s"
  by (cases s) auto

lemma dropWhile_hd_not: "dropWhile P xs \<noteq> [] \<Longrightarrow> \<not> P (hd (dropWhile P xs))"
  by (simp add: hd_dropWhile)

lemma nds_Cons: "no_double_space (a # s) \<longleftrightarrow> (s = [] \<or> \<not> (a = 32 \<and> hd s = 32)) \<and> no_double_space s"
  by (cases s) auto

lemma sub_spaces_nds: "no_double_space (sub_spaces s)"
proof (induction s rule: sub_spaces.induct)
  case 1
  then show ?case by simp
next
  case (2 d ds)
  show ?case
  proof (cases "py_isspace d")
    case True
    let ?r = "dropWhile py_isspace ds"
    have "sub_spaces ?r = [] \<or> hd (sub_spaces ?r) \<noteq> 32"
    proof (cases "?r = []")
      case True then show ?thesis by (metis sub_spaces.simps(1))
    next
      case False
      then have ns: "\<not> py_isspace (hd ?r)" by (rule dropWhile_hd_not)
      with False sub_spaces_hd[of ?r] have "hd (sub_spaces ?r) = hd ?r" by simp
      with ns show ?thesis by (metis isspace_32)
    qed
    moreover have "no_double_space (sub_spaces ?r)" using 2(1)[OF True] .
    moreover have "sub_spaces (d # ds) = 32 # sub_spaces ?r" using True by simp
    ultimately show ?thesis by (simp only: nds_Cons) blast
  next
    case False
    with 2(2) have ih: "no_double_space (sub_spaces ds)" by simp
    have "d \<noteq> 32" using False by (metis isspace_32)
    with ih False show ?thesis by (simp add: nds_Cons)
  qed
qed

lemma nds_append: "no_double_space (xs @ ys) \<Longrightarrow> no_double_space xs \<and> no_double_space ys"
proof (induction xs)
  case Nil
  then show ?case by simp
next
  case (Cons a xs)
  then show ?case by (cases xs) (auto simp: nds_Cons)
qed

lemma strip_decomp: "\<exists>u v. s = u @ strip_with P s @ v"
proof -
  let ?d = "dropWhile P s"
  have "s = takeWhile P s @ ?d" by simp
  moreover have "rev ?d = takeWhile P (rev ?d) @ dropWhile P (rev ?d)" by simp
  then have "?d = rev (dropWhile P (rev ?d)) @ rev (takeWhile P (rev ?d))"
    by (metis rev_append rev_rev_ident)
  ultimately show ?thesis unfolding strip_with_def by metis
qed

lemma strip_nds: "no_double_space s \<Longrightarrow> no_double_space (strip_with P s)"
  using strip_decomp[of s P] nds_append by metis

lemma strip_set: "c \<in> set (strip_with P s) \<Longrightarrow> c \<in> set s"
proof -
  assume "c \<in> set (strip_with P s)"
  then have "c \<in> set (dropWhile P (rev (dropWhile P s)))" by (simp add: strip_with_def)
  then have "c \<in> set (rev (dropWhile P s))" by (rule set_dropWhileD)
  then have "c \<in> set (dropWhile P s)" by simp
  then show ?thesis by (rule set_dropWhileD)
qed

lemma strip_last: "strip_with P s \<noteq> [] \<Longrightarrow> \<not> P (last (strip_with P s))"
proof -
  let ?e = "dropWhile P (rev (dropWhile P s))"
  assume "strip_with P s \<noteq> []"
  then have ne: "?e \<noteq> []" by (simp add: strip_with_def)
  then have "\<not> P (hd ?e)" by (rule dropWhile_hd_not)
  moreover have "last (rev ?e) = hd ?e" using ne by (simp add: last_rev)
  ultimately show ?thesis by (simp add: strip_with_def)
qed

lemma strip_hd: "strip_with P s \<noteq> [] \<Longrightarrow> \<not> P (hd (strip_with P s))"
proof -
  let ?d = "dropWhile P s"
  assume ne: "strip_with P s \<noteq> []"
  have "rev ?d = takeWhile P (rev ?d) @ dropWhile P (rev ?d)" by simp
  then have "?d = strip_with P s @ rev (takeWhile P (rev ?d))"
    unfolding strip_with_def by (metis rev_append rev_rev_ident)
  with ne have hd: "hd ?d = hd (strip_with P s)" by (metis hd_append2)
  have "?d \<noteq> []"
  proof
    assume "?d = []"
    then have "strip_with P s = []" unfolding strip_with_def by (simp only: rev.simps dropWhile.simps)
    with ne show False by simp
  qed
  then have "\<not> P (hd ?d)" by (rule dropWhile_hd_not)
  with hd show ?thesis by simp
qed

lemma strip_id: "s = [] \<or> (\<not> P (hd s) \<and> \<not> P (last s)) \<Longrightarrow> strip_with P s = s"
proof (cases "s = []")
  case True then show ?thesis by (simp add: strip_with_def)
next
  case False
  assume "s = [] \<or> (\<not> P (hd s) \<and> \<not> P (last s))"
  with False have h: "\<not> P (hd s)" and l: "\<not> P (last s)" by auto
  from False h have d1: "dropWhile P s = s" by (cases s) auto
  from False l have "\<not> P (hd (rev s))" by (simp add: hd_rev)
  with False have "dropWhile P (rev s) = rev s" by (cases "rev s") auto
  with d1 show ?thesis by (simp add: strip_with_def)
qed

lemma sub_spaces_id:
  "\<forall>c \<in> set s. py_isspace c \<longrightarrow> c = 32 \<Longrightarrow> no_double_space s \<Longrightarrow> sub_spaces s = s"
proof (induction s rule: sub_spaces.induct)
  case 1
  then show ?case by simp
next
  case (2 d ds)
  from 2(4) have nds: "no_double_space ds" by (simp add: nds_Cons)
  show ?case
  proof (cases "py_isspace d")
    case True
    with 2(3) have d: "d = 32" by simp
    with 2(4) have "ds = [] \<or> hd ds \<noteq> 32" by (simp add: nds_Cons)
    then have "ds = [] \<or> \<not> py_isspace (hd ds)" using 2(3) by (cases ds) auto
    then have dw: "dropWhile py_isspace ds = ds" by (cases ds) auto
    have "sub_spaces (dropWhile py_isspace ds) = dropWhile py_isspace ds"
      using 2(1)[OF True] 2(3) nds dw by simp
    with dw d True show ?thesis by simp
  next
    case False
    with 2(2)[OF False] 2(3) nds show ?thesis by simp
  qed
qed

lemma lower_nds: "no_double_space s \<Longrightarrow> no_double_space (py_lower s)"
proof (induction s rule: no_double_space.induct)
  case (1 a b cs)
  then show ?case by (auto simp: py_lower_def)
qed (simp_all add: py_lower_def)


lemma lower_hd_last:
  "s \<noteq> [] \<Longrightarrow> (hd (py_lower s) = 32 \<longleftrightarrow> hd s = 32) \<and> (last (py_lower s) = 32 \<longleftrightarrow> last s = 32)"
  by (auto simp: py_lower_def hd_map last_map)

lemma lower_chars:
  "\<forall>c \<in> set s. re_word c \<or> c = 32 \<Longrightarrow> \<forall>c \<in> set (py_lower s). canonical_char c \<or> c = 95"
  by (auto simp: py_lower_def re_word_def canonical_char_def)

lemma lower_id: "\<forall>c \<in> set s. canonical_char c \<or> c = 95 \<Longrightarrow> py_lower s = s"
  by (auto simp: py_lower_def canonical_char_def intro!: map_idI)

lemma canonical_space: "canonical_char c \<or> c = 95 \<Longrightarrow> py_isspace c \<longleftrightarrow> c = 32"
  by (auto simp: canonical_char_def py_isspace_def)

lemma canonical_word: "canonical_char c \<or> c = 95 \<Longrightarrow> re_word c \<or> py_isspace c"
  by (auto simp: canonical_char_def py_isspace_def re_word_def)

lemma canonical_ascii: "canonical_char c \<or> c = 95 \<Longrightarrow> c < 128"
  by (auto simp: canonical_char_def)

text \<open>The string after the three cleanup patterns.\<close>

lemma cleaned_shape:
  fixes t :: pystr
  defines "u \<equiv> strip_with py_isspace (sub_spaces (sub_punct t))"
  shows "(\<forall>c \<in> set u. re_word c \<or> c = 32) \<and> no_double_space u \<and>
         (u = [] \<or> (hd u \<noteq> 32 \<and> last u \<noteq> 32))"
proof -
  have chars: "\<forall>c \<in> set u. re_word c \<or> c = 32"
  proof
    fix c assume "c \<in> set u"
    then have "c \<in> set (sub_spaces (sub_punct t))" unfolding u_def by (rule strip_set)
    then have "c = 32 \<or> (c \<in> set (sub_punct t) \<and> \<not> py_isspace c)" by (rule sub_spaces_chars)
    then show "re_word c \<or> c = 32" using sub_punct_chars by blast
  qed
  have nds: "no_double_space u" unfolding u_def by (rule strip_nds) (rule sub_spaces_nds)
  have ends: "u = [] \<or> (hd u \<noteq> 32 \<and> last u \<noteq> 32)"
  proof (cases "u = []")
    case True then show ?thesis by simp
  next
    case False
    then have "\<not> py_isspace (hd u)" "\<not> py_isspace (last u)"
      unfolding u_def by (rule strip_hd, rule strip_last)
    then show ?thesis by (metis isspace_32)
  qed
  from chars nds ends show ?thesis by blast
qed

lemma lowered_shape:
  assumes "\<forall>c \<in> set u. re_word c \<or> c = 32" "no_double_space u"
    "u = [] \<or> (hd u \<noteq> 32 \<and> last u \<noteq> 32)"
  shows "underscore_form (py_lower u)"
proof -
  have "list_all (\<lambda>c. canonical_char c \<or> c = 95) (py_lower u)"
    using lower_chars[OF assms(1)] by (simp add: list_all_iff)
  moreover have "no_double_space (py_lower u)" using assms(2) by (rule lower_nds)
  moreover have "trimmed (py_lower u)"
  proof (cases "u = []")
    case True then show ?thesis by (simp add: trimmed_def py_lower_def)
  next
    case False
    with assms(3) lower_hd_last[OF False] show ?thesis by (simp add: trimmed_def)
  qed
  ultimately show ?thesis by (simp add: underscore_form_def)
qed

lemma underscore_form_strip: "underscore_form s \<Longrightarrow> strip_with py_isspace s = s"
proof (rule strip_id)
  assume a: "underscore_form s"
  show "s = [] \<or> (\<not> py_isspace (hd s) \<and> \<not> py_isspace (last s))"
  proof (cases "s = []")
    case True then show ?thesis by simp
  next
    case False
    then have "hd s \<in> set s" "last s \<in> set s" by simp_all
    with a have "canonical_char (hd s) \<or> hd s = 95" "canonical_char (last s) \<or> last s = 95"
      by (auto simp: underscore_form_def list_all_iff)
    then have "py_isspace (hd s) \<longleftrightarrow> hd s = 32" "py_isspace (last s) \<longleftrightarrow> last s = 32"
      by (simp_all only: canonical_space)
    with a False show ?thesis by (simp add: underscore_form_def trimmed_def)
  qed
qed

lemma normalize_underscore_form: "underscore_form (normalize_topic_name ud name)"
proof (cases "name = []")
  case True
  then show ?thesis
    by (simp add: normalize_topic_name_def underscore_form_def trimmed_def)
next
  case False
  define t where "t = ascii_only (normalize_NFC ud (filter (\<lambda>c. \<not> category_Mn ud c) (normalize_NFD ud name)))"
  define u where "u = strip_with py_isspace (sub_spaces (sub_punct t))"
  have n: "normalize_topic_name ud name = strip_with py_isspace (py_lower u)"
    using False
    by (simp add: normalize_topic_name_def Let_def cleanup_patterns_def sub_ends_def py_strip_def
        t_def u_def)
  have sh: "(\<forall>c \<in> set u. re_word c \<or> c = 32) \<and> no_double_space u \<and>
         (u = [] \<or> (hd u \<noteq> 32 \<and> last u \<noteq> 32))"
    unfolding u_def by (rule cleaned_shape)
  then have uf: "underscore_form (py_lower u)" by (intro lowered_shape) blast+
  then have "strip_with py_isspace (py_lower u) = py_lower u" by (rule underscore_form_strip)
  with n uf show ?thesis by simp
qed

lemma bot_normalize_underscore_form: "underscore_form (bot_normalize_topic_name ud name)"
proof (cases "name = []")
  case True
  then show ?thesis
    by (simp add: bot_normalize_topic_name_def underscore_form_def trimmed_def)
next
  case False
  define t where "t = ascii_only (filter (\<lambda>c. \<not> category_Mn ud c) (normalize_NFD ud name))"
  define u where "u = strip_with py_isspace (sub_spaces (sub_punct t))"
  have n: "bot_normalize_topic_name ud name = py_lower u"
    using False
    by (simp add: bot_normalize_topic_name_def Let_def py_strip_def t_def u_def)
  have sh: "(\<forall>c \<in> set u. re_word c \<or> c = 32) \<and> no_double_space u \<and>
         (u = [] \<or> (hd u \<noteq> 32 \<and> last u \<noteq> 32))"
    unfolding u_def by (rule cleaned_shape)
  then have "underscore_form (py_lower u)" by (intro lowered_shape) blast+
  with n show ?thesis by simp
qed

lemma normalize_fixes_underscore_form:
  assumes st: "ascii_stable ud" and uf: "underscore_form s"
  shows "normalize_topic_name ud s = s"
proof (cases "s = []")
  case True
  then show ?thesis by (simp add: normalize_topic_name_def)
next
  case False
  from uf have ch: "\<forall>c \<in> set s. canonical_char c \<or> c = 95" and nds: "no_double_space s"
    by (simp_all add: underscore_form_def list_all_iff)
  from ch have asc: "\<forall>c \<in> set s. c < 128" using canonical_ascii by blast
  with st have nfd: "normalize_NFD ud s = s" and nfc: "normalize_NFC ud s = s"
    by (simp_all add: ascii_stable_def)
  from st asc have "filter (\<lambda>c. \<not> category_Mn ud c) s = s"
    by (auto simp: ascii_stable_def intro!: filter_True)
  moreover from asc have "ascii_only s = s" by (auto simp: ascii_only_def intro!: map_idI)
  moreover from ch have "sub_punct s = s"
    using canonical_word by (auto simp: sub_punct_def intro!: map_idI)
  moreover have "sub_spaces s = s"
  proof (rule sub_spaces_id)
    show "\<forall>c \<in> set s. py_isspace c \<longrightarrow> c = 32" using ch canonical_space by blast
  qed (rule nds)
  moreover have "strip_with py_isspace s = s" using uf by (rule underscore_form_strip)
  moreover have "py_lower s = s" using ch by (rule lower_id)
  ultimately show ?thesis
    using False nfd nfc
    by (simp add: normalize_topic_name_def Let_def cleanup_patterns_def sub_ends_def py_strip_def)
qed

lemma sample_stable: "ascii_stable sample_unicodedata"
proof -
  have a: "(\<forall>c \<in> set s. c < 128) \<Longrightarrow> nfd_sample s = s" for s
    by (induction s) auto
  have b: "(\<forall>c \<in> set s. c < 128) \<Longrightarrow> nfc_sample s = s" for s
    by (induction s rule: nfc_sample.induct) auto
  show ?thesis by (auto simp: ascii_stable_def sample_unicodedata_def a b)
qed



section \<open>difflib.SequenceMatcher\<close>

text \<open>
  The scorer calls \<^verbatim>\<open>difflib.SequenceMatcher(None, a, b).ratio()\<close> of the Python
  standard library. The model follows CPython's implementation with its defaults
  (\<^verbatim>\<open>isjunk=None\<close>, \<^verbatim>\<open>autojunk=True\<close>): \<^verbatim>\<open>__chain_b\<close> builds the index
  \<^verbatim>\<open>b2j\<close> of the second sequence and drops the popular elements of a sequence of
  200 or more elements; no element is junk.
\<close>

type_synonym j2len = "nat \<Rightarrow> nat"
type_synonym match = "nat \<times> nat \<times> nat"

definition b2j :: "'a list \<Rightarrow> 'a \<Rightarrow> nat list" where
  "b2j b elt =
     (let idxs = filter (\<lambda>j. b ! j = elt) [0..<length b]; n = length b
      in if n \<ge> 200 \<and> length idxs > n div 100 + 1 then [] else idxs)"

text \<open>\<^verbatim>\<open>self.bjunk\<close> is empty when \<^verbatim>\<open>isjunk\<close> is \<^verbatim>\<open>None\<close>.\<close>

definition isbjunk :: "'a \<Rightarrow> bool" where
  "isbjunk elt \<longleftrightarrow> False"

text \<open>
  \<^verbatim>\<open>find_longest_match\<close>: the inner loop over the indices \<^verbatim>\<open>j\<close> of
  \<^verbatim>\<open>b2j[a[i]]\<close> (\<^verbatim>\<open>continue\<close> below \<^verbatim>\<open>blo\<close>, \<^verbatim>\<open>break\<close> from
  \<^verbatim>\<open>bhi\<close> on), where \<^verbatim>\<open>j2len.get(j-1, 0)\<close> is a function with default 0, and
  the outer loop over \<^verbatim>\<open>i\<close>.
\<close>

fun scan_row :: "j2len \<Rightarrow> nat \<Rightarrow> nat \<Rightarrow> nat \<Rightarrow> nat list \<Rightarrow> j2len \<times> match \<Rightarrow> j2len \<times> match" where
  "scan_row j2len i blo bhi [] st = st"
| "scan_row j2len i blo bhi (j # js) (newj2len, besti, bestj, bestsize) =
     (if j < blo then scan_row j2len i blo bhi js (newj2len, besti, bestj, bestsize)
      else if j \<ge> bhi then (newj2len, besti, bestj, bestsize)
      else
        let k = (if j = 0 then 0 else j2len (j - 1)) + 1 in
        if k > bestsize
        then scan_row j2len i blo bhi js (newj2len(j := k), i + 1 - k, j + 1 - k, k)
        else scan_row j2len i blo bhi js (newj2len(j := k), besti, bestj, bestsize))"

fun scan_rows :: "'a list \<Rightarrow> 'a list \<Rightarrow> nat \<Rightarrow> nat \<Rightarrow> nat list \<Rightarrow> j2len \<times> match \<Rightarrow> j2len \<times> match" where
  "scan_rows a b blo bhi [] st = st"
| "scan_rows a b blo bhi (i # is) (j2len, best) =
     scan_rows a b blo bhi is (scan_row j2len i blo bhi (b2j b (a ! i)) (\<lambda>_. 0, best))"

text \<open>The four \<^verbatim>\<open>while\<close> loops that extend the best match at both ends.\<close>

function extend_left :: "('a \<Rightarrow> bool) \<Rightarrow> 'a list \<Rightarrow> 'a list \<Rightarrow> nat \<Rightarrow> nat \<Rightarrow> match \<Rightarrow> match" where
  "extend_left ok a b alo blo (besti, bestj, bestsize) =
     (if besti > alo \<and> bestj > blo \<and> ok (b ! (bestj - 1)) \<and> a ! (besti - 1) = b ! (bestj - 1)
      then extend_left ok a b alo blo (besti - 1, bestj - 1, bestsize + 1)
      else (besti, bestj, bestsize))"
  by pat_completeness auto
termination
  by (relation "measure (\<lambda>(ok, a, b, alo, blo, besti, bestj, bestsize). besti)") auto

function extend_right :: "('a \<Rightarrow> bool) \<Rightarrow> 'a list \<Rightarrow> 'a list \<Rightarrow> nat \<Rightarrow> nat \<Rightarrow> match \<Rightarrow> match" where
  "extend_right ok a b ahi bhi (besti, bestj, bestsize) =
     (if besti + bestsize < ahi \<and> bestj + bestsize < bhi \<and> ok (b ! (bestj + bestsize)) \<and>
         a ! (besti + bestsize) = b ! (bestj + bestsize)
      then extend_right ok a b ahi bhi (besti, bestj, bestsize + 1)
      else (besti, bestj, bestsize))"
  by pat_completeness auto
termination
  by (relation "measure (\<lambda>(ok, a, b, ahi, bhi, besti, bestj, bestsize). ahi - (besti + bestsize))") auto

declare extend_left.simps [simp del] extend_right.simps [simp del]

definition find_longest_match :: "'a list \<Rightarrow> 'a list \<Rightarrow> nat \<Rightarrow> nat \<Rightarrow> nat \<Rightarrow> nat \<Rightarrow> match" where
  "find_longest_match a b alo ahi blo bhi =
     (let best = snd (scan_rows a b blo bhi [alo..<ahi] (\<lambda>_. 0, alo, blo, 0));
          best = extend_left (\<lambda>elt. \<not> isbjunk elt) a b alo blo best;
          best = extend_right (\<lambda>elt. \<not> isbjunk elt) a b ahi bhi best;
          best = extend_left isbjunk a b alo blo best;
          best = extend_right isbjunk a b ahi bhi best
      in best)"

lemma scan_row_inv:
  assumes "alo \<le> i" "i < ahi" "\<forall>j. j2len j \<le> i - alo"
    "scan_row j2len i blo bhi js (new, bi, bj, bs) = (new', bi', bj', bs')"
    "alo \<le> bi" "bi + bs \<le> max alo ahi" "\<forall>j. new j \<le> i + 1 - alo"
  shows "alo \<le> bi' \<and> bi' + bs' \<le> max alo ahi \<and> (\<forall>j. new' j \<le> i + 1 - alo)"
  using assms
proof (induction js arbitrary: new bi bj bs)
  case Nil
  then show ?case by simp
next
  case (Cons j js)
  define k where "k = (if j = 0 then 0 else j2len (j - 1)) + 1"
  have "j2len (j - 1) \<le> i - alo" using Cons.prems(3) by blast
  then have k: "k \<le> i + 1 - alo" "1 \<le> k" using Cons.prems(1) by (auto simp: k_def)
  have upd: "\<forall>ja. (new(j := k)) ja \<le> i + 1 - alo" using k Cons.prems(7) by simp
  show ?case
  proof (cases "j < blo")
    case True
    with Cons show ?thesis by simp
  next
    case nlt: False
    show ?thesis
    proof (cases "j \<ge> bhi")
      case True
      with nlt Cons.prems show ?thesis by simp
    next
      case False
      have step: "scan_row j2len i blo bhi (j # js) (new, bi, bj, bs) =
          (if k > bs then scan_row j2len i blo bhi js (new(j := k), i + 1 - k, j + 1 - k, k)
           else scan_row j2len i blo bhi js (new(j := k), bi, bj, bs))"
        using nlt False by (simp add: Let_def k_def)
      show ?thesis
      proof (cases "k > bs")
        case True
        with step Cons.prems(4)
        have run: "scan_row j2len i blo bhi js (new(j := k), i + 1 - k, j + 1 - k, k) = (new', bi', bj', bs')"
          by (simp only: if_True)
        show ?thesis
        proof (rule Cons.IH[OF Cons.prems(1-3) run _ _ upd])
          show "alo \<le> i + 1 - k" using k Cons.prems(1) by linarith
          show "i + 1 - k + k \<le> max alo ahi" using k Cons.prems(1,2) by linarith
        qed
      next
        case nb: False
        with step Cons.prems(4)
        have run: "scan_row j2len i blo bhi js (new(j := k), bi, bj, bs) = (new', bi', bj', bs')"
          by (simp only: if_False)
        show ?thesis
          by (rule Cons.IH[OF Cons.prems(1-3) run Cons.prems(5,6) upd])
      qed
    qed
  qed
qed

text \<open>
  The length stored for column \<open>j\<close> never exceeds \<open>j + 1\<close>, and by the lemma above the
  length found in row \<open>i\<close> never exceeds \<open>i + 1 - alo\<close>: the subtractions
  \<open>i + 1 - k\<close> and \<open>j + 1 - k\<close> on natural numbers are Python's \<^verbatim>\<open>i-k+1\<close> and
  \<^verbatim>\<open>j-k+1\<close>.
\<close>

lemma scan_row_j2len_bound:
  assumes "\<forall>j. j2len j \<le> Suc j" "\<forall>j. new j \<le> Suc j"
    and "scan_row j2len i blo bhi js (new, best) = (new', best')"
  shows "\<forall>j. new' j \<le> Suc j"
  using assms
proof (induction js arbitrary: new best)
  case Nil
  then show ?case by simp
next
  case (Cons j js)
  define k where "k = (if j = 0 then 0 else j2len (j - 1)) + 1"
  have "j2len (j - 1) \<le> Suc (j - 1)" using Cons.prems(1) by blast
  then have k: "k \<le> Suc j" by (auto simp: k_def)
  then have upd: "\<forall>ja. (new(j := k)) ja \<le> Suc ja" using Cons.prems(2) by simp
  obtain bi bj bs where best: "best = (bi, bj, bs)" by (cases best)
  show ?case
  proof (cases "j < blo \<or> j \<ge> bhi")
    case True
    with Cons.prems Cons.IH best show ?thesis by (auto split: if_splits)
  next
    case False
    then have step: "scan_row j2len i blo bhi (j # js) (new, bi, bj, bs) =
          (if k > bs then scan_row j2len i blo bhi js (new(j := k), i + 1 - k, j + 1 - k, k)
           else scan_row j2len i blo bhi js (new(j := k), bi, bj, bs))"
      by (simp add: Let_def k_def)
    show ?thesis
    proof (cases "k > bs")
      case True
      with step Cons.prems(3) best
      have "scan_row j2len i blo bhi js (new(j := k), i + 1 - k, j + 1 - k, k) = (new', best')"
        by (simp only: if_True)
      from Cons.IH[OF Cons.prems(1) upd this] show ?thesis .
    next
      case nb: False
      with step Cons.prems(3) best
      have "scan_row j2len i blo bhi js (new(j := k), bi, bj, bs) = (new', best')"
        by (simp only: if_False)
      from Cons.IH[OF Cons.prems(1) upd this] show ?thesis .
    qed
  qed
qed

lemma scan_rows_inv:
  assumes "scan_rows a b blo bhi [m..<ahi] (j2len, bi, bj, bs) = (j2len', bi', bj', bs')"
    "alo \<le> m" "\<forall>j. j2len j \<le> m - alo" "alo \<le> bi" "bi + bs \<le> max alo ahi"
  shows "alo \<le> bi' \<and> bi' + bs' \<le> max alo ahi"
  using assms
proof (induction "ahi - m" arbitrary: m j2len bi bj bs)
  case 0
  then show ?case by simp
next
  case (Suc n)
  then have lt: "m < ahi" by simp
  then have upt: "[m..<ahi] = m # [Suc m..<ahi]" by (rule upt_conv_Cons)
  obtain new ci cj cs where row: "scan_row j2len m blo bhi (b2j b (a ! m)) (\<lambda>_. 0, bi, bj, bs) = (new, ci, cj, cs)"
    by (metis prod_cases4)
  have inv: "alo \<le> ci \<and> ci + cs \<le> max alo ahi \<and> (\<forall>j. new j \<le> m + 1 - alo)"
    by (rule scan_row_inv[OF Suc.prems(2) lt Suc.prems(3) row Suc.prems(4,5)]) simp
  from Suc.prems(1) upt row
  have rest: "scan_rows a b blo bhi [Suc m..<ahi] (new, ci, cj, cs) = (j2len', bi', bj', bs')"
    by simp
  show ?case
  proof (rule Suc.hyps(1)[OF _ rest])
    show "n = ahi - Suc m" using Suc.hyps(2) by simp
    show "alo \<le> Suc m" using Suc.prems(2) by simp
    show "\<forall>j. new j \<le> Suc m - alo" using inv by simp
    show "alo \<le> ci" using inv by simp
    show "ci + cs \<le> max alo ahi" using inv by simp
  qed
qed

lemma extend_left_inv:
  "extend_left ok a b alo blo (bi, bj, bs) = (bi', bj', bs') \<Longrightarrow> alo \<le> bi \<Longrightarrow> bi + bs \<le> M
   \<Longrightarrow> alo \<le> bi' \<and> bi' + bs' \<le> M"
proof (induction ok a b alo blo "(bi, bj, bs)" arbitrary: bi bj bs rule: extend_left.induct)
  case (1 ok a b alo blo besti bestj bestsize)
  show ?case
  proof (cases "besti > alo \<and> bestj > blo \<and> ok (b ! (bestj - 1)) \<and> a ! (besti - 1) = b ! (bestj - 1)")
    case True
    have "extend_left ok a b alo blo (besti, bestj, bestsize) =
        extend_left ok a b alo blo (besti - 1, bestj - 1, bestsize + 1)"
      by (subst extend_left.simps) (rule if_P[OF True])
    with 1(2) have "extend_left ok a b alo blo (besti - 1, bestj - 1, bestsize + 1) = (bi', bj', bs')"
      by simp
    moreover have "alo \<le> besti - 1" "besti - 1 + (bestsize + 1) \<le> M" using True 1(3,4) by auto
    ultimately show ?thesis using 1(1)[OF True] by blast
  next
    case False
    have "extend_left ok a b alo blo (besti, bestj, bestsize) = (besti, bestj, bestsize)"
      by (subst extend_left.simps) (rule if_not_P[OF False])
    with 1(2) have "(besti, bestj, bestsize) = (bi', bj', bs')"
      by simp
    with 1(3,4) show ?thesis by simp
  qed
qed

lemma extend_right_inv:
  "extend_right ok a b ahi bhi (bi, bj, bs) = (bi', bj', bs') \<Longrightarrow> alo \<le> bi \<Longrightarrow> bi + bs \<le> max alo ahi
   \<Longrightarrow> alo \<le> bi' \<and> bi' + bs' \<le> max alo ahi"
proof (induction ok a b ahi bhi "(bi, bj, bs)" arbitrary: bi bj bs rule: extend_right.induct)
  case (1 ok a b ahi bhi besti bestj bestsize)
  let ?c = "besti + bestsize < ahi \<and> bestj + bestsize < bhi \<and> ok (b ! (bestj + bestsize)) \<and>
         a ! (besti + bestsize) = b ! (bestj + bestsize)"
  show ?case
  proof (cases ?c)
    case True
    have "extend_right ok a b ahi bhi (besti, bestj, bestsize) =
        extend_right ok a b ahi bhi (besti, bestj, bestsize + 1)"
      by (subst extend_right.simps) (rule if_P[OF True])
    with 1(2) have "extend_right ok a b ahi bhi (besti, bestj, bestsize + 1) = (bi', bj', bs')"
      by simp
    moreover have "besti + (bestsize + 1) \<le> max alo ahi" using True by auto
    ultimately show ?thesis using 1(1)[OF True] 1(3) by blast
  next
    case False
    have "extend_right ok a b ahi bhi (besti, bestj, bestsize) = (besti, bestj, bestsize)"
      by (subst extend_right.simps) (rule if_not_P[OF False])
    with 1(2) have "(besti, bestj, bestsize) = (bi', bj', bs')"
      by simp
    with 1(3,4) show ?thesis by simp
  qed
qed

lemma find_longest_match_bounds:
  assumes "find_longest_match a b alo ahi blo bhi = (i, j, k)"
  shows "alo \<le> i \<and> i + k \<le> max alo ahi"
proof -
  obtain jl i0 j0 k0 where s0: "scan_rows a b blo bhi [alo..<ahi] (\<lambda>_. 0, alo, blo, 0) = (jl, i0, j0, k0)"
    by (metis prod_cases4)
  obtain i1 j1 k1 where s1: "extend_left (\<lambda>elt. \<not> isbjunk elt) a b alo blo (i0, j0, k0) = (i1, j1, k1)"
    by (metis prod_cases3)
  obtain i2 j2 k2 where s2: "extend_right (\<lambda>elt. \<not> isbjunk elt) a b ahi bhi (i1, j1, k1) = (i2, j2, k2)"
    by (metis prod_cases3)
  obtain i3 j3 k3 where s3: "extend_left isbjunk a b alo blo (i2, j2, k2) = (i3, j3, k3)"
    by (metis prod_cases3)
  have s4: "extend_right isbjunk a b ahi bhi (i3, j3, k3) = (i, j, k)"
    using assms s0 s1 s2 s3 by (simp add: find_longest_match_def)
  have "alo \<le> i0 \<and> i0 + k0 \<le> max alo ahi"
    by (rule scan_rows_inv[OF s0]) simp_all
  then have "alo \<le> i1 \<and> i1 + k1 \<le> max alo ahi" using extend_left_inv[OF s1] by blast
  then have "alo \<le> i2 \<and> i2 + k2 \<le> max alo ahi" using extend_right_inv[OF s2] by blast
  then have "alo \<le> i3 \<and> i3 + k3 \<le> max alo ahi" using extend_left_inv[OF s3] by blast
  then show ?thesis using extend_right_inv[OF s4] by blast
qed

text \<open>
  \<^verbatim>\<open>get_matching_blocks\<close>: the loop over the queue of spans still to be matched.
  \<^verbatim>\<open>queue.pop()\<close> takes the last element of the Python list, which is the head of
  the list here. The loop ends because a span is replaced by spans that are shorter
  by the size of the match.
\<close>

type_synonym span = "nat \<times> nat \<times> nat \<times> nat"

definition queue_weight :: "span list \<Rightarrow> nat" where
  "queue_weight q = sum_list (map (\<lambda>(alo, ahi, blo, bhi). 2 * (ahi - alo) + 1) q)"

function matching_loop :: "'a list \<Rightarrow> 'a list \<Rightarrow> span list \<Rightarrow> match list \<Rightarrow> match list" where
  "matching_loop a b [] matching_blocks = matching_blocks"
| "matching_loop a b ((alo, ahi, blo, bhi) # queue) matching_blocks =
     (case find_longest_match a b alo ahi blo bhi of
        (i, j, k) \<Rightarrow>
          if k \<noteq> 0
          then matching_loop a b
                 ((if i + k < ahi \<and> j + k < bhi then [(i + k, ahi, j + k, bhi)] else []) @
                  (if alo < i \<and> blo < j then [(alo, i, blo, j)] else []) @ queue)
                 (matching_blocks @ [(i, j, k)])
          else matching_loop a b queue matching_blocks)"
  by pat_completeness auto
termination
  apply (relation "measure (\<lambda>(a, b, q, m). queue_weight q)")
    apply simp
  subgoal for a b alo ahi blo bhi queue matching_blocks i y j k
    using find_longest_match_bounds[of a b alo ahi blo bhi i j k]
    by (auto simp: queue_weight_def max_def split: if_splits)
  subgoal by (simp add: queue_weight_def)
  done

declare matching_loop.simps [simp del]

text \<open>
  The blocks are sorted, adjacent blocks are merged, and a sentinel of size 0 ends the
  list; \<^verbatim>\<open>ratio\<close> adds the sizes up.
\<close>

fun collapse :: "match \<Rightarrow> match list \<Rightarrow> match list" where
  "collapse (i1, j1, k1) [] = (if k1 \<noteq> 0 then [(i1, j1, k1)] else [])"
| "collapse (i1, j1, k1) ((i2, j2, k2) # rest) =
     (if i1 + k1 = i2 \<and> j1 + k1 = j2 then collapse (i1, j1, k1 + k2) rest
      else (if k1 \<noteq> 0 then [(i1, j1, k1)] else []) @ collapse (i2, j2, k2) rest)"

definition get_matching_blocks :: "'a list \<Rightarrow> 'a list \<Rightarrow> match list" where
  "get_matching_blocks a b =
     (let la = length a; lb = length b;
          matching_blocks = sort (matching_loop a b [(0, la, 0, lb)] [])
      in collapse (0, 0, 0) matching_blocks @ [(la, lb, 0)])"

definition calculate_ratio :: "nat \<Rightarrow> nat \<Rightarrow> real" where
  "calculate_ratio matches len = (if len \<noteq> 0 then 2 * real matches / real len else 1)"

definition ratio :: "'a list \<Rightarrow> 'a list \<Rightarrow> real" where
  "ratio a b =
     (let matches = sum_list (map (\<lambda>(i, j, k). k) (get_matching_blocks a b))
      in calculate_ratio matches (length a + length b))"

text \<open>Sorting and merging do not change the sum of the sizes.\<close>

lemma collapse_sum:
  "sum_list (map (\<lambda>(i, j, k). k) (collapse (i1, j1, k1) ms)) = k1 + sum_list (map (\<lambda>(i, j, k). k) ms)"
  by (induction "(i1, j1, k1)" ms arbitrary: i1 j1 k1 rule: collapse.induct) auto

lemma sort_sum: "sum_list (map f (sort ms)) = sum_list (map f ms)" for f :: "match \<Rightarrow> nat"
proof -
  have "mset (map f (sort ms)) = mset (map f ms)" by simp
  then show ?thesis by (metis sum_mset_sum_list)
qed

lemma ratio_matching_loop:
  "ratio a b =
     calculate_ratio (sum_list (map (\<lambda>(i, j, k). k) (matching_loop a b [(0, length a, 0, length b)] [])))
       (length a + length b)"
  by (simp add: ratio_def get_matching_blocks_def Let_def collapse_sum sort_sum)

section \<open>The duplicate detector\<close>

text \<open>
  \<^verbatim>\<open>ImprovedDuplicateDetector\<close>: the instance holds the threshold; the cleanup
  patterns and the stop words are the same for every instance.
\<close>

record ImprovedDuplicateDetector =
  similarity_threshold :: real

definition stop_words :: "pystr set" where
  "stop_words = set (map py [''channel'', ''group'', ''chat'', ''oficial'', ''official'',
     ''vip'', ''premium'', ''new'', ''novo'', ''nova'', ''the'', ''a'', ''an''])"

definition extract_keywords :: "unicodedata \<Rightarrow> pystr \<Rightarrow> pystr set" where
  "extract_keywords ud name =
     (let normalized = normalize_topic_name ud name;
          words = set (py_split normalized)
      in Set.filter (\<lambda>word. length word \<ge> 2 \<and> word \<notin> stop_words) words)"

text \<open>
  The second component of the result of \<^verbatim>\<open>calculate_similarity\<close>, one constructor
  for each value of \<^verbatim>\<open>'method'\<close>; the two keyword lists are kept as sets.
\<close>

datatype details =
    Empty_input real
  | Exact_match real pystr pystr
  | Hybrid real pystr pystr real real real "pystr set" "pystr set"

text \<open>\<^verbatim>\<open>max(iterable, default=d)\<close>.\<close>

definition max_default :: "real list \<Rightarrow> real \<Rightarrow> real" where
  "max_default xs d = (case xs of [] \<Rightarrow> d | x # rest \<Rightarrow> foldl max x rest)"

definition calculate_similarity :: "unicodedata \<Rightarrow> pystr \<Rightarrow> pystr \<Rightarrow> real \<times> details" where
  "calculate_similarity ud name1 name2 =
     (if name1 = [] \<or> name2 = [] then (0, Empty_input 0)
      else
        let norm1 = normalize_topic_name ud name1;
            norm2 = normalize_topic_name ud name2
        in if norm1 = norm2 then (1, Exact_match 1 norm1 norm2)
           else
             let seq_similarity = ratio norm1 norm2;
                 keywords1 = extract_keywords ud name1;
                 keywords2 = extract_keywords ud name2;
                 keyword_similarity =
                   (if keywords1 \<noteq> {} \<and> keywords2 \<noteq> {}
                    then real (card (keywords1 \<inter> keywords2)) / real (card (keywords1 \<union> keywords2))
                    else 0);
                 words1 = py_split norm1;
                 words2 = py_split norm2;
                 word_similarities =
                   map (\<lambda>w1. max_default (map (\<lambda>w2. ratio w1 w2) words2) 0) words1 @
                   map (\<lambda>w2. max_default (map (\<lambda>w1. ratio w2 w1) words1) 0) words2;
                 word_avg_similarity =
                   (if word_similarities \<noteq> []
                    then sum_list word_similarities / real (length word_similarities) else 0);
                 final_score =
                   seq_similarity * 0.4 + keyword_similarity * 0.35 + word_avg_similarity * 0.25
             in (final_score,
                 Hybrid final_score norm1 norm2 seq_similarity keyword_similarity
                   word_avg_similarity keywords1 keywords2))"

definition are_duplicates ::
  "ImprovedDuplicateDetector \<Rightarrow> unicodedata \<Rightarrow> pystr \<Rightarrow> pystr \<Rightarrow> bool \<times> real \<times> details" where
  "are_duplicates self ud name1 name2 =
     (let (similarity', details') = calculate_similarity ud name1 name2;
          is_duplicate' = (similarity' \<ge> similarity_threshold self)
      in (is_duplicate', similarity', details'))"


subsection \<open>The hybrid score on lists\<close>

text \<open>
  The three signals written on lists, so that the score of two concrete names can be
  computed by rewriting.
\<close>

definition keywords_of :: "pystr \<Rightarrow> pystr list" where
  "keywords_of normalized =
     filter (\<lambda>word. length word \<ge> 2 \<and> word \<notin> stop_words) (py_split normalized)"

definition jaccard_lists :: "pystr list \<Rightarrow> pystr list \<Rightarrow> real" where
  "jaccard_lists xs ys =
     (if xs \<noteq> [] \<and> ys \<noteq> []
      then real (length (remdups (filter (\<lambda>x. x \<in> set ys) xs))) / real (length (remdups (xs @ ys)))
      else 0)"

definition word_similarities_of :: "pystr list \<Rightarrow> pystr list \<Rightarrow> real list" where
  "word_similarities_of words1 words2 =
     map (\<lambda>w1. max_default (map (\<lambda>w2. ratio w1 w2) words2) 0) words1 @
     map (\<lambda>w2. max_default (map (\<lambda>w1. ratio w2 w1) words1) 0) words2"

text \<open>
  The scores that one of the two loops over the words appends: for every word of the first
  list, its best ratio against the words of the second list.
\<close>

definition best_matches :: "pystr list \<Rightarrow> pystr list \<Rightarrow> real list" where
  "best_matches ws vs = map (\<lambda>w. max_default (map (\<lambda>v. ratio w v) vs) 0) ws"

definition average :: "real list \<Rightarrow> real" where
  "average xs = (if xs \<noteq> [] then sum_list xs / real (length xs) else 0)"

lemma extract_keywords_list:
  "extract_keywords ud name = set (keywords_of (normalize_topic_name ud name))"
  by (auto simp: extract_keywords_def keywords_of_def Let_def)

lemma jaccard_sets:
  "(if set xs \<noteq> {} \<and> set ys \<noteq> {}
    then real (card (set xs \<inter> set ys)) / real (card (set xs \<union> set ys)) else 0) = jaccard_lists xs ys"
proof -
  have "set xs \<inter> set ys = set (remdups (filter (\<lambda>x. x \<in> set ys) xs))" by auto
  then have i: "card (set xs \<inter> set ys) = length (remdups (filter (\<lambda>x. x \<in> set ys) xs))"
    by (metis distinct_card distinct_remdups)
  have "set xs \<union> set ys = set (remdups (xs @ ys))" by auto
  then have u: "card (set xs \<union> set ys) = length (remdups (xs @ ys))"
    by (metis distinct_card distinct_remdups)
  show ?thesis by (simp add: jaccard_lists_def i u)
qed

lemma calculate_similarity_hybrid:
  assumes "name1 \<noteq> []" "name2 \<noteq> []"
    and "normalize_topic_name ud name1 \<noteq> normalize_topic_name ud name2"
  shows "fst (calculate_similarity ud name1 name2) =
           ratio (normalize_topic_name ud name1) (normalize_topic_name ud name2) * 0.4 +
           jaccard_lists (keywords_of (normalize_topic_name ud name1))
                         (keywords_of (normalize_topic_name ud name2)) * 0.35 +
           average (word_similarities_of (py_split (normalize_topic_name ud name1))
                                         (py_split (normalize_topic_name ud name2))) * 0.25"
  using assms
  by (simp add: calculate_similarity_def Let_def extract_keywords_list jaccard_sets
      word_similarities_of_def average_def del: set_empty set_empty2)

lemmas normalize_eval = normalize_topic_name_def bot_normalize_topic_name_def sample_unicodedata_def
  py_def ascii_only_def cleanup_patterns_def sub_punct_def sub_ends_def py_strip_def
  strip_with_def py_lower_def re_word_def py_isspace_def

lemmas difflib_eval = ratio_matching_loop calculate_ratio_def matching_loop.simps find_longest_match_def
  extend_left.simps extend_right.simps b2j_def isbjunk_def Let_def

lemmas scorer_eval = keywords_of_def jaccard_lists_def word_similarities_of_def average_def
  stop_words_def py_split_def max_default_def py_isspace_def


lemma score_eval:
  assumes "normalize_topic_name ud name1 = n1" "normalize_topic_name ud name2 = n2"
    and "name1 \<noteq> []" "name2 \<noteq> []" "n1 \<noteq> n2"
    and "ratio n1 n2 = s"
    and "jaccard_lists (keywords_of n1) (keywords_of n2) = k"
    and "average (word_similarities_of (py_split n1) (py_split n2)) = t"
  shows "fst (calculate_similarity ud name1 name2) = s * 0.4 + k * 0.35 + t * 0.25"
  using calculate_similarity_hybrid[of name1 name2 ud] assms by simp


subsection \<open>\<^verbatim>\<open>check_against_existing\<close> and \<^verbatim>\<open>find_duplicates_in_list\<close>\<close>

text \<open>
  A \<^verbatim>\<open>dict\<close> keeps insertion order, so the topics are a list of pairs with distinct keys.
  In \<^verbatim>\<open>find_duplicates_in_list\<close> the slice \<^verbatim>\<open>topic_names[i+1:]\<close> is the rest of
  the list.
\<close>

record check_result =
  is_duplicate :: bool
  similar_topic :: "pystr option"
  similarity :: real
  all_scores :: "(pystr \<times> real) list"

fun best_match_loop ::
  "unicodedata \<Rightarrow> pystr \<Rightarrow> pystr list \<Rightarrow> pystr option \<times> real \<times> (pystr \<times> real) list
   \<Rightarrow> pystr option \<times> real \<times> (pystr \<times> real) list" where
  "best_match_loop ud new_name [] st = st"
| "best_match_loop ud new_name (existing_name # rest) (best_match, best_similarity, all_scores') =
     (let similarity' = fst (calculate_similarity ud new_name existing_name);
          all_scores' = all_scores' @ [(existing_name, similarity')]
      in if similarity' > best_similarity
         then best_match_loop ud new_name rest (Some existing_name, similarity', all_scores')
         else best_match_loop ud new_name rest (best_match, best_similarity, all_scores'))"

definition check_against_existing ::
  "ImprovedDuplicateDetector \<Rightarrow> unicodedata \<Rightarrow> pystr \<Rightarrow> (pystr \<times> int) list \<Rightarrow> check_result" where
  "check_against_existing self ud new_name existing_topics =
     (if existing_topics = []
      then \<lparr>is_duplicate = False, similar_topic = None, similarity = 0, all_scores = []\<rparr>
      else
        let (best_match, best_similarity, all_scores') =
              best_match_loop ud new_name (map fst existing_topics) (None, 0, []);
            is_duplicate' = (best_similarity \<ge> similarity_threshold self)
        in \<lparr>is_duplicate = is_duplicate',
            similar_topic = (if is_duplicate' then best_match else None),
            similarity = best_similarity, all_scores = all_scores'\<rparr>)"

fun gather_group ::
  "ImprovedDuplicateDetector \<Rightarrow> unicodedata \<Rightarrow> pystr \<Rightarrow> pystr list \<Rightarrow> pystr list \<times> pystr set
   \<Rightarrow> pystr list \<times> pystr set" where
  "gather_group self ud name1 [] (group', processed) = (group', processed)"
| "gather_group self ud name1 (name2 # rest) (group', processed) =
     (if name2 \<in> processed then gather_group self ud name1 rest (group', processed)
      else if fst (are_duplicates self ud name1 name2)
           then gather_group self ud name1 rest (group' @ [name2], insert name2 processed)
           else gather_group self ud name1 rest (group', processed))"

fun groups_loop ::
  "ImprovedDuplicateDetector \<Rightarrow> unicodedata \<Rightarrow> pystr list \<Rightarrow> pystr list list \<times> pystr set
   \<Rightarrow> pystr list list" where
  "groups_loop self ud [] (duplicate_groups, processed) = duplicate_groups"
| "groups_loop self ud (name1 # rest) (duplicate_groups, processed) =
     (if name1 \<in> processed then groups_loop self ud rest (duplicate_groups, processed)
      else
        let (group', processed) = gather_group self ud name1 rest ([name1], processed)
        in if length group' > 1
           then groups_loop self ud rest (duplicate_groups @ [group'], insert name1 processed)
           else groups_loop self ud rest (duplicate_groups, processed))"

definition find_duplicates_in_list ::
  "ImprovedDuplicateDetector \<Rightarrow> unicodedata \<Rightarrow> (pystr \<times> int) list \<Rightarrow> pystr list list" where
  "find_duplicates_in_list self ud topics' = groups_loop self ud (map fst topics') ([], {})"

section \<open>The registry of the bot\<close>

text \<open>
  \<^verbatim>\<open>load_topics\<close> takes the outcome of opening \<^verbatim>\<open>TOPICS_FILE\<close> and of
  \<^verbatim>\<open>json.load\<close>: an exception or the parsed value. Only \<^verbatim>\<open>FileNotFoundError\<close>
  and \<^verbatim>\<open>JSONDecodeError\<close> are caught; \<^verbatim>\<open>data.keys()\<close> raises
  \<^verbatim>\<open>AttributeError\<close> on a value that is not an object.
\<close>

datatype exn = FileNotFoundError | JSONDecodeError | AttributeError | OtherError

datatype json =
    JNull | JBool bool | JNumber real | JString pystr | JArray "json list"
  | JObject "(pystr \<times> json) list"

fun truthy :: "json \<Rightarrow> bool" where
  "truthy JNull = False"
| "truthy (JBool b) = b"
| "truthy (JNumber x) = (x \<noteq> 0)"
| "truthy (JString s) = (s \<noteq> [])"
| "truthy (JArray xs) = (xs \<noteq> [])"
| "truthy (JObject kvs) = (kvs \<noteq> [])"

definition startswith :: "pystr \<Rightarrow> pystr \<Rightarrow> bool" where
  "startswith s prefix = (take (length prefix) s = prefix)"

definition load_topics :: "exn + json \<Rightarrow> exn + json" where
  "load_topics opened =
     (case opened of
        Inl e \<Rightarrow> (if e = FileNotFoundError \<or> e = JSONDecodeError then Inr (JObject []) else Inl e)
      | Inr data \<Rightarrow>
          (if truthy data
           then (case data of
                   JObject kvs \<Rightarrow>
                     (if startswith (fst (hd kvs)) (py ''-'') then Inr (JObject []) else Inr data)
                 | _ \<Rightarrow> Inl AttributeError)
           else Inr data))"

text \<open>
  The object returned by \<^verbatim>\<open>create_forum_topic\<close>: each of the three attributes that
  \<^verbatim>\<open>hasattr\<close> looks for is absent (\<open>None\<close>) or holds a thread id. The bot holds the
  topics, the last content written to \<^verbatim>\<open>TOPICS_FILE\<close>, and the names passed to
  \<^verbatim>\<open>create_forum_topic\<close> so far. \<^verbatim>\<open>save_topics\<close> catches every exception, so a
  failed write leaves the file as it was.
\<close>

record forum_topic =
  attr_message_thread_id :: "int option"
  attr_thread_id :: "int option"
  attr_id :: "int option"

record bot =
  topics :: "(pystr \<times> int) list"
  topics_file :: "(pystr \<times> int) list option"
  created :: "pystr list"

definition dict_set :: "('k \<times> 'v) list \<Rightarrow> 'k \<Rightarrow> 'v \<Rightarrow> ('k \<times> 'v) list" where
  "dict_set d k v =
     (if k \<in> fst ` set d then map (\<lambda>(k', v'). if k' = k then (k', v) else (k', v')) d
      else d @ [(k, v)])"

definition save_topics :: "bool \<Rightarrow> bot \<Rightarrow> bot" where
  "save_topics writable self = (if writable then self\<lparr>topics_file := Some (topics self)\<rparr> else self)"

fun find_topic :: "unicodedata \<Rightarrow> pystr \<Rightarrow> (pystr \<times> int) list \<Rightarrow> int option" where
  "find_topic ud normalized_name [] = None"
| "find_topic ud normalized_name ((existing_name, thread_id) # rest) =
     (if bot_normalize_topic_name ud existing_name = normalized_name then Some thread_id
      else find_topic ud normalized_name rest)"

definition get_or_create_topic ::
  "unicodedata \<Rightarrow> (pystr \<Rightarrow> exn + forum_topic) \<Rightarrow> bool \<Rightarrow> bot \<Rightarrow> int \<Rightarrow> pystr \<Rightarrow> int option \<times> bot" where
  "get_or_create_topic ud create_forum_topic writable self chat_id source_name =
     (let normalized_name = bot_normalize_topic_name ud source_name in
      case find_topic ud normalized_name (topics self) of
        Some thread_id \<Rightarrow> (Some thread_id, self)
      | None \<Rightarrow>
          (let self = self\<lparr>created := created self @ [take 128 source_name]\<rparr> in
           case create_forum_topic (take 128 source_name) of
             Inl e \<Rightarrow> (None, self)
           | Inr topic \<Rightarrow>
               (case (if attr_message_thread_id topic \<noteq> None then attr_message_thread_id topic
                      else if attr_thread_id topic \<noteq> None then attr_thread_id topic
                      else attr_id topic) of
                  None \<Rightarrow> (None, self)
                | Some thread_id \<Rightarrow>
                    (Some thread_id,
                     save_topics writable (self\<lparr>topics := dict_set (topics self) source_name thread_id\<rparr>)))))"


text \<open>A bot whose registry holds one topic, for evaluating the model.\<close>

definition sample_bot :: bot where
  "sample_bot = \<lparr>topics = [(py ''Daily News'', 101)], topics_file = Some [(py ''Daily News'', 101)], created = []\<rparr>"

section \<open>The composite score as the specification words it\<close>

text \<open>
  The keyword set of a canonical form, the Jaccard index of two keyword sets (0 when
  either is empty) and the token similarity (the average, over every token of both word
  lists, of its best ratio against the tokens of the other list), written from the
  specification, to be compared with \<^verbatim>\<open>calculate_similarity\<close>.
\<close>

definition spec_keyword_set :: "pystr \<Rightarrow> pystr set" where
  "spec_keyword_set canonical = {t \<in> set (py_split canonical). length t \<ge> 2 \<and> t \<notin> stop_words}"

definition spec_keyword_similarity :: "pystr set \<Rightarrow> pystr set \<Rightarrow> real" where
  "spec_keyword_similarity A B =
     (if A = {} \<or> B = {} then 0 else real (card (A \<inter> B)) / real (card (A \<union> B)))"

definition spec_best_match :: "pystr \<Rightarrow> pystr list \<Rightarrow> real" where
  "spec_best_match t ts = (if ts = [] then 0 else Max ((\<lambda>u. ratio t u) ` set ts))"

definition spec_token_similarity :: "pystr list \<Rightarrow> pystr list \<Rightarrow> real" where
  "spec_token_similarity A B =
     (let best = map (\<lambda>t. spec_best_match t B) A @ map (\<lambda>t. spec_best_match t A) B
      in if best = [] then 0 else sum_list best / real (length best))"

section \<open>Concrete names\<close>

text \<open>
  A detector with the default threshold, a platform that answers every creation request
  with thread 102, and two registries of one topic each.
\<close>

definition default_detector :: ImprovedDuplicateDetector where
  "default_detector = \<lparr>similarity_threshold = 0.85\<rparr>"

definition platform_102 :: "pystr \<Rightarrow> exn + forum_topic" where
  "platform_102 name = Inr \<lparr>attr_message_thread_id = Some 102, attr_thread_id = None, attr_id = None\<rparr>"

definition music_bot :: bot where
  "music_bot = \<lparr>topics = [(py ''Music Mix'', 101)], topics_file = Some [(py ''Music Mix'', 101)], created = []\<rparr>"

definition hot_bot :: bot where
  "hot_bot = \<lparr>topics = [(py ''Hot'', 101)], topics_file = Some [(py ''Hot'', 101)], created = []\<rparr>"

section \<open>Lemmas about the scorer, the auditor and the registry\<close>

lemma foldl_max_Max: "foldl max x xs = Max (set (x # xs))" for x :: real
proof (induction xs arbitrary: x)
  case Nil
  then show ?case by simp
next
  case (Cons y ys)
  have "foldl max x (y # ys) = Max (set (max x y # ys))" using Cons.IH by simp
  also have "\<dots> = Max (insert x (insert y (set ys)))"
    by (cases "ys = []") (simp_all add: max.assoc Max_insert)
  finally show ?case by simp
qed

lemma max_default_best: "max_default (map (\<lambda>u. ratio t u) ts) 0 = spec_best_match t ts"
proof (cases ts)
  case Nil
  then show ?thesis by (simp add: max_default_def spec_best_match_def)
next
  case (Cons u us)
  then show ?thesis by (simp add: max_default_def spec_best_match_def foldl_max_Max)
qed

lemma average_token_similarity:
  "average (word_similarities_of A B) = spec_token_similarity A B"
  by (simp add: average_def word_similarities_of_def spec_token_similarity_def max_default_best Let_def)

lemma jaccard_keyword_similarity:
  "jaccard_lists (keywords_of n1) (keywords_of n2) =
   spec_keyword_similarity (spec_keyword_set n1) (spec_keyword_set n2)"
proof -
  have s: "spec_keyword_set n = set (keywords_of n)" for n
    by (auto simp: spec_keyword_set_def keywords_of_def)
  show ?thesis
    unfolding s jaccard_sets[symmetric] spec_keyword_similarity_def by simp
qed

lemma are_duplicates_fst:
  "fst (are_duplicates self ud name1 name2) \<longleftrightarrow>
   fst (calculate_similarity ud name1 name2) \<ge> similarity_threshold self"
  by (simp add: are_duplicates_def Let_def split: prod.splits)

lemma word_similarities_halves:
  "word_similarities_of words1 words2 = best_matches words1 words2 @ best_matches words2 words1"
  by (simp add: word_similarities_of_def best_matches_def)

lemma spec_keyword_similarity_commute:
  "spec_keyword_similarity A B = spec_keyword_similarity B A"
  by (auto simp: spec_keyword_similarity_def Int_commute Un_commute)

lemma hybrid_score_parts:
  assumes "a \<noteq> []" "b \<noteq> []" "normalize_topic_name ud a \<noteq> normalize_topic_name ud b"
  shows "fst (calculate_similarity ud a b) =
           ratio (normalize_topic_name ud a) (normalize_topic_name ud b) * 0.4 +
           spec_keyword_similarity (spec_keyword_set (normalize_topic_name ud a))
                                   (spec_keyword_set (normalize_topic_name ud b)) * 0.35 +
           average (best_matches (py_split (normalize_topic_name ud a)) (py_split (normalize_topic_name ud b)) @
                    best_matches (py_split (normalize_topic_name ud b)) (py_split (normalize_topic_name ud a))) * 0.25"
  using calculate_similarity_hybrid [OF assms]
  by (simp only: jaccard_keyword_similarity word_similarities_halves)

subsection \<open>Scores of concrete names\<close>

lemma score_mix_group:
  "fst (calculate_similarity sample_unicodedata (py ''Music Mix Group'') (py ''Music Mix'')) = 43/50"
proof -
  have "fst (calculate_similarity sample_unicodedata (py ''Music Mix Group'') (py ''Music Mix'')) =
        (3/4) * 0.4 + (1) * 0.35 + (21/25) * 0.25"
  proof (rule score_eval)
    show "normalize_topic_name sample_unicodedata (py ''Music Mix Group'') = py ''music mix group''"
      by (simp add: normalize_eval)
    show "normalize_topic_name sample_unicodedata (py ''Music Mix'') = py ''music mix''"
      by (simp add: normalize_eval)
    show "py ''Music Mix Group'' \<noteq> []" "py ''Music Mix'' \<noteq> []" "py ''music mix group'' \<noteq> py ''music mix''"
      by (simp_all add: py_def)
    show "ratio (py ''music mix group'') (py ''music mix'') = 3/4"
      by (simp add: difflib_eval py_def)
    show "jaccard_lists (keywords_of (py ''music mix group'')) (keywords_of (py ''music mix'')) = 1"
      by (simp add: scorer_eval py_def)
    show "average (word_similarities_of (py_split (py ''music mix group'')) (py_split (py ''music mix''))) = 21/25"
      by (simp add: scorer_eval difflib_eval py_def)
  qed
  then show ?thesis by simp
qed

lemma score_hot:
  "fst (calculate_similarity sample_unicodedata (py ''Hot Hot'') (py ''Hot'')) = 21/25"
proof -
  have "fst (calculate_similarity sample_unicodedata (py ''Hot Hot'') (py ''Hot'')) =
        (3/5) * 0.4 + (1) * 0.35 + (1) * 0.25"
  proof (rule score_eval)
    show "normalize_topic_name sample_unicodedata (py ''Hot Hot'') = py ''hot hot''"
      by (simp add: normalize_eval)
    show "normalize_topic_name sample_unicodedata (py ''Hot'') = py ''hot''"
      by (simp add: normalize_eval)
    show "py ''Hot Hot'' \<noteq> []" "py ''Hot'' \<noteq> []" "py ''hot hot'' \<noteq> py ''hot''"
      by (simp_all add: py_def)
    show "ratio (py ''hot hot'') (py ''hot'') = 3/5"
      by (simp add: difflib_eval py_def)
    show "jaccard_lists (keywords_of (py ''hot hot'')) (keywords_of (py ''hot'')) = 1"
      by (simp add: scorer_eval py_def)
    show "average (word_similarities_of (py_split (py ''hot hot'')) (py_split (py ''hot''))) = 1"
      by (simp add: scorer_eval difflib_eval py_def)
  qed
  then show ?thesis by simp
qed

lemma score_a_daily:
  "fst (calculate_similarity sample_unicodedata (py ''A Daily News'') (py ''Daily News'')) = 307/330"
proof -
  have "fst (calculate_similarity sample_unicodedata (py ''A Daily News'') (py ''Daily News'')) =
        (10/11) * 0.4 + (1) * 0.35 + (13/15) * 0.25"
  proof (rule score_eval)
    show "normalize_topic_name sample_unicodedata (py ''A Daily News'') = py ''a daily news''"
      by (simp add: normalize_eval)
    show "normalize_topic_name sample_unicodedata (py ''Daily News'') = py ''daily news''"
      by (simp add: normalize_eval)
    show "py ''A Daily News'' \<noteq> []" "py ''Daily News'' \<noteq> []" "py ''a daily news'' \<noteq> py ''daily news''"
      by (simp_all add: py_def)
    show "ratio (py ''a daily news'') (py ''daily news'') = 10/11"
      by (simp add: difflib_eval py_def)
    show "jaccard_lists (keywords_of (py ''a daily news'')) (keywords_of (py ''daily news'')) = 1"
      by (simp add: scorer_eval py_def)
    show "average (word_similarities_of (py_split (py ''a daily news'')) (py_split (py ''daily news''))) = 13/15"
      by (simp add: scorer_eval difflib_eval py_def)
  qed
  then show ?thesis by simp
qed

lemma score_daily_a:
  "fst (calculate_similarity sample_unicodedata (py ''Daily News'') (py ''A Daily News'')) = 307/330"
proof -
  have "fst (calculate_similarity sample_unicodedata (py ''Daily News'') (py ''A Daily News'')) =
        (10/11) * 0.4 + (1) * 0.35 + (13/15) * 0.25"
  proof (rule score_eval)
    show "normalize_topic_name sample_unicodedata (py ''Daily News'') = py ''daily news''"
      by (simp add: normalize_eval)
    show "normalize_topic_name sample_unicodedata (py ''A Daily News'') = py ''a daily news''"
      by (simp add: normalize_eval)
    show "py ''Daily News'' \<noteq> []" "py ''A Daily News'' \<noteq> []" "py ''daily news'' \<noteq> py ''a daily news''"
      by (simp_all add: py_def)
    show "ratio (py ''daily news'') (py ''a daily news'') = 10/11"
      by (simp add: difflib_eval py_def)
    show "jaccard_lists (keywords_of (py ''daily news'')) (keywords_of (py ''a daily news'')) = 1"
      by (simp add: scorer_eval py_def)
    show "average (word_similarities_of (py_split (py ''daily news'')) (py_split (py ''a daily news''))) = 13/15"
      by (simp add: scorer_eval difflib_eval py_def)
  qed
  then show ?thesis by simp
qed

lemma score_daily_channel:
  "fst (calculate_similarity sample_unicodedata (py ''Daily News'') (py ''Daily News Channel'')) = 263/308"
proof -
  have "fst (calculate_similarity sample_unicodedata (py ''Daily News'') (py ''Daily News Channel'')) =
        (5/7) * 0.4 + (1) * 0.35 + (48/55) * 0.25"
  proof (rule score_eval)
    show "normalize_topic_name sample_unicodedata (py ''Daily News'') = py ''daily news''"
      by (simp add: normalize_eval)
    show "normalize_topic_name sample_unicodedata (py ''Daily News Channel'') = py ''daily news channel''"
      by (simp add: normalize_eval)
    show "py ''Daily News'' \<noteq> []" "py ''Daily News Channel'' \<noteq> []" "py ''daily news'' \<noteq> py ''daily news channel''"
      by (simp_all add: py_def)
    show "ratio (py ''daily news'') (py ''daily news channel'') = 5/7"
      by (simp add: difflib_eval py_def)
    show "jaccard_lists (keywords_of (py ''daily news'')) (keywords_of (py ''daily news channel'')) = 1"
      by (simp add: scorer_eval py_def)
    show "average (word_similarities_of (py_split (py ''daily news'')) (py_split (py ''daily news channel''))) = 48/55"
      by (simp add: scorer_eval difflib_eval py_def)
  qed
  then show ?thesis by simp
qed

lemma score_a_channel:
  "fst (calculate_similarity sample_unicodedata (py ''A Daily News'') (py ''Daily News Channel'')) = 3217/3960"
proof -
  have "fst (calculate_similarity sample_unicodedata (py ''A Daily News'') (py ''Daily News Channel'')) =
        (2/3) * 0.4 + (1) * 0.35 + (155/198) * 0.25"
  proof (rule score_eval)
    show "normalize_topic_name sample_unicodedata (py ''A Daily News'') = py ''a daily news''"
      by (simp add: normalize_eval)
    show "normalize_topic_name sample_unicodedata (py ''Daily News Channel'') = py ''daily news channel''"
      by (simp add: normalize_eval)
    show "py ''A Daily News'' \<noteq> []" "py ''Daily News Channel'' \<noteq> []" "py ''a daily news'' \<noteq> py ''daily news channel''"
      by (simp_all add: py_def)
    show "ratio (py ''a daily news'') (py ''daily news channel'') = 2/3"
      by (simp add: difflib_eval py_def)
    show "jaccard_lists (keywords_of (py ''a daily news'')) (keywords_of (py ''daily news channel'')) = 1"
      by (simp add: scorer_eval py_def)
    show "average (word_similarities_of (py_split (py ''a daily news'')) (py_split (py ''daily news channel''))) = 155/198"
      by (simp add: scorer_eval difflib_eval py_def)
  qed
  then show ?thesis by simp
qed

lemma score_tide_diet:
  "fst (calculate_similarity sample_unicodedata (py ''tide'') (py ''diet'')) = 31/160"
proof -
  have "fst (calculate_similarity sample_unicodedata (py ''tide'') (py ''diet'')) =
        (1/4) * 0.4 + (0) * 0.35 + (3/8) * 0.25"
  proof (rule score_eval)
    show "normalize_topic_name sample_unicodedata (py ''tide'') = py ''tide''"
      by (simp add: normalize_eval)
    show "normalize_topic_name sample_unicodedata (py ''diet'') = py ''diet''"
      by (simp add: normalize_eval)
    show "py ''tide'' \<noteq> []" "py ''diet'' \<noteq> []" "py ''tide'' \<noteq> py ''diet''"
      by (simp_all add: py_def)
    show "ratio (py ''tide'') (py ''diet'') = 1/4"
      by (simp add: difflib_eval py_def)
    show "jaccard_lists (keywords_of (py ''tide'')) (keywords_of (py ''diet'')) = 0"
      by (simp add: scorer_eval py_def)
    show "average (word_similarities_of (py_split (py ''tide'')) (py_split (py ''diet''))) = 3/8"
      by (simp add: scorer_eval difflib_eval py_def)
  qed
  then show ?thesis by simp
qed

lemma score_diet_tide:
  "fst (calculate_similarity sample_unicodedata (py ''diet'') (py ''tide'')) = 47/160"
proof -
  have "fst (calculate_similarity sample_unicodedata (py ''diet'') (py ''tide'')) =
        (1/2) * 0.4 + (0) * 0.35 + (3/8) * 0.25"
  proof (rule score_eval)
    show "normalize_topic_name sample_unicodedata (py ''diet'') = py ''diet''"
      by (simp add: normalize_eval)
    show "normalize_topic_name sample_unicodedata (py ''tide'') = py ''tide''"
      by (simp add: normalize_eval)
    show "py ''diet'' \<noteq> []" "py ''tide'' \<noteq> []" "py ''diet'' \<noteq> py ''tide''"
      by (simp_all add: py_def)
    show "ratio (py ''diet'') (py ''tide'') = 1/2"
      by (simp add: difflib_eval py_def)
    show "jaccard_lists (keywords_of (py ''diet'')) (keywords_of (py ''tide'')) = 0"
      by (simp add: scorer_eval py_def)
    show "average (word_similarities_of (py_split (py ''diet'')) (py_split (py ''tide''))) = 3/8"
      by (simp add: scorer_eval difflib_eval py_def)
  qed
  then show ?thesis by simp
qed

subsection \<open>Groups and lookups\<close>

lemma groups_first_name_only:
  assumes "distinct [A, B, C]"
    and "fst (are_duplicates self ud A B)" "\<not> fst (are_duplicates self ud A C)"
  shows "find_duplicates_in_list self ud [(A, a), (B, b), (C, c)] = [[A, B]]"
  using assms by (auto simp: find_duplicates_in_list_def)

lemma groups_middle_name_first:
  assumes "distinct [A, B, C]"
    and "fst (are_duplicates self ud B A)" "fst (are_duplicates self ud B C)"
  shows "find_duplicates_in_list self ud [(B, b), (A, a), (C, c)] = [[B, A, C]]"
  using assms by (auto simp: find_duplicates_in_list_def)

lemma groups_first_name_only_swapped:
  assumes "distinct [A, B, C]"
    and "fst (are_duplicates self ud A B)" "\<not> fst (are_duplicates self ud A C)"
  shows "find_duplicates_in_list self ud [(A, a), (C, c), (B, b)] = [[A, B]]"
  using assms by (auto simp: find_duplicates_in_list_def)

lemma groups_middle_name_first_swapped:
  assumes "distinct [A, B, C]"
    and "fst (are_duplicates self ud B A)" "fst (are_duplicates self ud B C)"
  shows "find_duplicates_in_list self ud [(B, b), (C, c), (A, a)] = [[B, C, A]]"
  using assms by (auto simp: find_duplicates_in_list_def)

lemma daily_names_distinct:
  "distinct [py ''A Daily News'', py ''Daily News'', py ''Daily News Channel'']"
  by (simp add: py_def)

lemma daily_duplicates:
  "fst (are_duplicates default_detector sample_unicodedata (py ''A Daily News'') (py ''Daily News''))"
  "fst (are_duplicates default_detector sample_unicodedata (py ''Daily News'') (py ''A Daily News''))"
  "fst (are_duplicates default_detector sample_unicodedata (py ''Daily News'') (py ''Daily News Channel''))"
  "\<not> fst (are_duplicates default_detector sample_unicodedata (py ''A Daily News'') (py ''Daily News Channel''))"
  by (simp_all add: are_duplicates_fst default_detector_def score_a_daily score_daily_a
      score_daily_channel score_a_channel)

lemma find_topic_None:
  "\<forall>(k, v) \<in> set ts. bot_normalize_topic_name ud k \<noteq> n \<Longrightarrow> find_topic ud n ts = None"
  by (induction ts) auto

lemma find_topic_first:
  "\<forall>(k', v') \<in> set pre. bot_normalize_topic_name ud k' \<noteq> n \<Longrightarrow> bot_normalize_topic_name ud k = n
   \<Longrightarrow> find_topic ud n (pre @ (k, v) # post) = Some v"
  by (induction pre) auto

lemma dict_set_new: "k \<notin> fst ` set d \<Longrightarrow> dict_set d k v = d @ [(k, v)]"
  by (simp add: dict_set_def)

lemma resolve_existing:
  assumes "topics self = pre @ (k, v) # post"
    and "\<forall>(k', v') \<in> set pre. bot_normalize_topic_name ud k' \<noteq> bot_normalize_topic_name ud source_name"
    and "bot_normalize_topic_name ud k = bot_normalize_topic_name ud source_name"
  shows "get_or_create_topic ud create_forum_topic writable self chat_id source_name = (Some v, self)"
  using find_topic_first[OF assms(2,3), of v post] assms(1)
  by (simp add: get_or_create_topic_def Let_def)

lemma resolve_new:
  assumes "\<forall>(k', v') \<in> set (topics self). bot_normalize_topic_name ud k' \<noteq> bot_normalize_topic_name ud source_name"
    and "create_forum_topic (take 128 source_name) = Inr topic"
    and "attr_message_thread_id topic = Some t"
  shows "get_or_create_topic ud create_forum_topic writable self chat_id source_name =
         (Some t, save_topics writable
            (self\<lparr>created := created self @ [take 128 source_name],
                  topics := topics self @ [(source_name, t)]\<rparr>))"
proof -
  have "source_name \<notin> fst ` set (topics self)" using assms(1) by fastforce
  then have "dict_set (topics self) source_name t = topics self @ [(source_name, t)]"
    by (rule dict_set_new)
  with find_topic_None[OF assms(1)] assms(2,3) show ?thesis
    by (simp add: get_or_create_topic_def Let_def)
qed


lemma music_check:
  "check_against_existing default_detector sample_unicodedata (py ''Music Mix Group'') (topics music_bot) =
   \<lparr>is_duplicate = True, similar_topic = Some (py ''Music Mix''), similarity = 0.86,
    all_scores = [(py ''Music Mix'', 0.86)]\<rparr>"
  by (simp add: check_against_existing_def music_bot_def default_detector_def score_mix_group Let_def)

lemma music_resolve:
  "get_or_create_topic sample_unicodedata platform_102 True music_bot (-1001) (py ''Music Mix Group'') =
   (Some 102,
    \<lparr>topics = [(py ''Music Mix'', 101), (py ''Music Mix Group'', 102)],
     topics_file = Some [(py ''Music Mix'', 101), (py ''Music Mix Group'', 102)],
     created = [py ''Music Mix Group'']\<rparr>)"
proof -
  have n: "bot_normalize_topic_name sample_unicodedata (py ''Music Mix'') = py ''music mix''"
    "bot_normalize_topic_name sample_unicodedata (py ''Music Mix Group'') = py ''music mix group''"
    by (simp_all add: normalize_eval)
  have d: "py ''music mix'' \<noteq> py ''music mix group''" by (simp add: py_def)
  have t: "take 128 (py ''Music Mix Group'') = py ''Music Mix Group''" by (simp add: py_def)
  have "\<forall>(k', v') \<in> set (topics music_bot).
          bot_normalize_topic_name sample_unicodedata k' \<noteq>
          bot_normalize_topic_name sample_unicodedata (py ''Music Mix Group'')"
    using d by (simp add: music_bot_def n)
  from resolve_new [OF this, of platform_102 _ 102 True "-1001"]
  show ?thesis by (simp add: platform_102_def save_topics_def music_bot_def t)
qed

section \<open>Claims about the normaliser\<close>

text \<open>
  C3. The spec says that for every input the normalised name consists only of lowercase
  ASCII letters, digits and single spaces. The pattern \<^verbatim>\<open>[^\w\s]\<close> keeps the
  underscore, which \<^verbatim>\<open>\w\<close> contains, although the comments beside it say that
  punctuation is removed and only letters, numbers and spaces are kept: both normalisers
  return the name \<^verbatim>\<open>a_b\<close> unchanged, and it is not of the promised form.
\<close>

theorem C3_underscore_survives:
  "normalize_topic_name sample_unicodedata (py ''a_b'') = py ''a_b'' \<and>
   bot_normalize_topic_name sample_unicodedata (py ''a_b'') = py ''a_b'' \<and>
   \<not> list_all canonical_char (py ''a_b'')"
  by (simp add: normalize_topic_name_def bot_normalize_topic_name_def sample_unicodedata_def
      py_def ascii_only_def cleanup_patterns_def sub_punct_def sub_ends_def py_strip_def
      strip_with_def py_lower_def re_word_def py_isspace_def canonical_char_def)

text \<open>
  C6. Normalising is idempotent: normalising a normalised name returns it unchanged,
  for any tables of \<^verbatim>\<open>unicodedata\<close> that leave ASCII strings alone.
\<close>

theorem C6_normalize_idempotent:
  assumes "ascii_stable ud"
  shows "normalize_topic_name ud (normalize_topic_name ud x) = normalize_topic_name ud x"
  using assms normalize_underscore_form by (rule normalize_fixes_underscore_form)

theorem C6_normalize_idempotent_witness:
  "ascii_stable sample_unicodedata \<and>
   normalize_topic_name sample_unicodedata (py ''Caf'' @ [233, 32, 9749]) = py ''cafe'' \<and>
   normalize_topic_name sample_unicodedata
     (normalize_topic_name sample_unicodedata (py ''Caf'' @ [233, 32, 9749])) = py ''cafe''"
proof -
  have n: "normalize_topic_name sample_unicodedata (py ''Caf'' @ [233, 32, 9749]) = py ''cafe''"
    by (simp add: normalize_topic_name_def sample_unicodedata_def
      py_def ascii_only_def cleanup_patterns_def sub_punct_def sub_ends_def py_strip_def
      strip_with_def py_lower_def re_word_def py_isspace_def)
  from C6_normalize_idempotent [OF sample_stable, of "py ''Caf'' @ [233, 32, 9749]"] n sample_stable
  show ?thesis by simp
qed

section \<open>Claims about the scorer\<close>

text \<open>
  C9. Two distinct non-empty raw names whose canonical forms are both empty (names made
  of emoji or punctuation only) take the exact-match path: the score is exactly 1, so
  \<^verbatim>\<open>are_duplicates\<close> reports a duplicate at every threshold up to 1.
\<close>

theorem C9_degenerate_names_exact_match:
  assumes "name1 \<noteq> []" "name2 \<noteq> []" "name1 \<noteq> name2"
    and "normalize_topic_name ud name1 = []" "normalize_topic_name ud name2 = []"
    and "similarity_threshold self \<le> 1"
  shows "calculate_similarity ud name1 name2 = (1, Exact_match 1 [] []) \<and>
         fst (are_duplicates self ud name1 name2)"
  using assms by (simp add: calculate_similarity_def are_duplicates_def)

theorem C9_degenerate_names_exact_match_witness:
  "[9749] \<noteq> ([] :: pystr) \<and> py ''!!'' \<noteq> [] \<and> [9749] \<noteq> py ''!!'' \<and>
   normalize_topic_name sample_unicodedata [9749] = [] \<and>
   normalize_topic_name sample_unicodedata (py ''!!'') = [] \<and>
   similarity_threshold \<lparr>similarity_threshold = 0.85\<rparr> \<le> 1 \<and>
   calculate_similarity sample_unicodedata [9749] (py ''!!'') = (1, Exact_match 1 [] []) \<and>
   fst (are_duplicates \<lparr>similarity_threshold = 0.85\<rparr> sample_unicodedata [9749] (py ''!!''))"
proof -
  have n1: "normalize_topic_name sample_unicodedata [9749] = []"
    and n2: "normalize_topic_name sample_unicodedata (py ''!!'') = []"
    by (simp_all add: normalize_eval)
  have ne: "[9749] \<noteq> ([] :: pystr)" "py ''!!'' \<noteq> []" "[9749] \<noteq> py ''!!''"
    by (simp_all add: py_def)
  have t: "similarity_threshold \<lparr>similarity_threshold = 0.85\<rparr> \<le> 1" by simp
  from C9_degenerate_names_exact_match [OF ne n1 n2 t] n1 n2 ne t show ?thesis by blast
qed

text \<open>
  C5. For two non-empty names with different canonical forms the score is
  0.40 times the sequence ratio of the canonical forms, plus 0.35 times the Jaccard index
  of their keyword sets (0 when either set is empty), plus 0.25 times the token similarity.
  Python floats are read as exact reals.
\<close>

theorem C5_composite_score:
  assumes "name1 \<noteq> []" "name2 \<noteq> []"
    and "normalize_topic_name ud name1 \<noteq> normalize_topic_name ud name2"
  shows "fst (calculate_similarity ud name1 name2) =
           0.40 * ratio (normalize_topic_name ud name1) (normalize_topic_name ud name2) +
           0.35 * spec_keyword_similarity (spec_keyword_set (normalize_topic_name ud name1))
                                          (spec_keyword_set (normalize_topic_name ud name2)) +
           0.25 * spec_token_similarity (py_split (normalize_topic_name ud name1))
                                        (py_split (normalize_topic_name ud name2))"
  using calculate_similarity_hybrid[OF assms]
  by (simp add: jaccard_keyword_similarity average_token_similarity)

theorem C5_composite_score_witness:
  "py ''Music Mix Group'' \<noteq> [] \<and> py ''Music Mix'' \<noteq> [] \<and>
   normalize_topic_name sample_unicodedata (py ''Music Mix Group'') \<noteq>
     normalize_topic_name sample_unicodedata (py ''Music Mix'') \<and>
   0.40 * ratio (normalize_topic_name sample_unicodedata (py ''Music Mix Group''))
                (normalize_topic_name sample_unicodedata (py ''Music Mix'')) +
   0.35 * spec_keyword_similarity
            (spec_keyword_set (normalize_topic_name sample_unicodedata (py ''Music Mix Group'')))
            (spec_keyword_set (normalize_topic_name sample_unicodedata (py ''Music Mix''))) +
   0.25 * spec_token_similarity
            (py_split (normalize_topic_name sample_unicodedata (py ''Music Mix Group'')))
            (py_split (normalize_topic_name sample_unicodedata (py ''Music Mix''))) = 0.86"
proof -
  have n: "normalize_topic_name sample_unicodedata (py ''Music Mix Group'') = py ''music mix group''"
    "normalize_topic_name sample_unicodedata (py ''Music Mix'') = py ''music mix''"
    by (simp_all add: normalize_eval)
  have ne: "py ''Music Mix Group'' \<noteq> []" "py ''Music Mix'' \<noteq> []" by (simp_all add: py_def)
  have d: "normalize_topic_name sample_unicodedata (py ''Music Mix Group'') \<noteq>
     normalize_topic_name sample_unicodedata (py ''Music Mix'')"
    unfolding n by (simp add: py_def)
  from C5_composite_score [OF ne d] score_mix_group ne d show ?thesis by simp
qed

text \<open>
  C4. The spec says the score is symmetric. \<^verbatim>\<open>SequenceMatcher.ratio\<close> depends on
  the order of its arguments, and the scorer passes the two canonical forms in the order of
  the call: the names \<^verbatim>\<open>tide\<close> and \<^verbatim>\<open>diet\<close> score 31/160 one way and 47/160
  the other way.
\<close>

theorem C4_symmetry_counterexample:
  "fst (calculate_similarity sample_unicodedata (py ''tide'') (py ''diet'')) \<noteq>
   fst (calculate_similarity sample_unicodedata (py ''diet'') (py ''tide''))"
  by (simp add: score_tide_diet score_diet_tide)

text \<open>
  C4, as amended. The two scores are both 0 when either name is empty and both 1 when the
  canonical forms are equal. Otherwise both are 0.40 times the sequence ratio plus 0.35
  times the keyword similarity plus 0.25 times the average of the best-match scores, with
  the same keyword similarity and the same best-match scores in both orders: the two
  halves of the list of best-match scores change places, and the sequence ratio takes
  the canonical forms in the order of the call.
\<close>

theorem C4_order_of_arguments:
  "(a = [] \<or> b = [] \<longrightarrow>
      fst (calculate_similarity ud a b) = 0 \<and> fst (calculate_similarity ud b a) = 0) \<and>
   (a \<noteq> [] \<and> b \<noteq> [] \<and> normalize_topic_name ud a = normalize_topic_name ud b \<longrightarrow>
      fst (calculate_similarity ud a b) = 1 \<and> fst (calculate_similarity ud b a) = 1) \<and>
   (a \<noteq> [] \<and> b \<noteq> [] \<and> normalize_topic_name ud a \<noteq> normalize_topic_name ud b \<longrightarrow>
      fst (calculate_similarity ud a b) =
        ratio (normalize_topic_name ud a) (normalize_topic_name ud b) * 0.4 +
        spec_keyword_similarity (spec_keyword_set (normalize_topic_name ud a))
                                (spec_keyword_set (normalize_topic_name ud b)) * 0.35 +
        average (best_matches (py_split (normalize_topic_name ud a)) (py_split (normalize_topic_name ud b)) @
                 best_matches (py_split (normalize_topic_name ud b)) (py_split (normalize_topic_name ud a))) * 0.25 \<and>
      fst (calculate_similarity ud b a) =
        ratio (normalize_topic_name ud b) (normalize_topic_name ud a) * 0.4 +
        spec_keyword_similarity (spec_keyword_set (normalize_topic_name ud a))
                                (spec_keyword_set (normalize_topic_name ud b)) * 0.35 +
        average (best_matches (py_split (normalize_topic_name ud b)) (py_split (normalize_topic_name ud a)) @
                 best_matches (py_split (normalize_topic_name ud a)) (py_split (normalize_topic_name ud b))) * 0.25)"
proof (intro conjI impI)
  assume "a = [] \<or> b = []"
  then show "fst (calculate_similarity ud a b) = 0" "fst (calculate_similarity ud b a) = 0"
    by (auto simp: calculate_similarity_def)
next
  assume "a \<noteq> [] \<and> b \<noteq> [] \<and> normalize_topic_name ud a = normalize_topic_name ud b"
  then show "fst (calculate_similarity ud a b) = 1" "fst (calculate_similarity ud b a) = 1"
    by (simp_all add: calculate_similarity_def Let_def)
next
  assume h: "a \<noteq> [] \<and> b \<noteq> [] \<and> normalize_topic_name ud a \<noteq> normalize_topic_name ud b"
  then have ne: "a \<noteq> []" "b \<noteq> []"
    and d: "normalize_topic_name ud a \<noteq> normalize_topic_name ud b"
    and d': "normalize_topic_name ud b \<noteq> normalize_topic_name ud a"
    by auto
  show "fst (calculate_similarity ud a b) =
        ratio (normalize_topic_name ud a) (normalize_topic_name ud b) * 0.4 +
        spec_keyword_similarity (spec_keyword_set (normalize_topic_name ud a))
                                (spec_keyword_set (normalize_topic_name ud b)) * 0.35 +
        average (best_matches (py_split (normalize_topic_name ud a)) (py_split (normalize_topic_name ud b)) @
                 best_matches (py_split (normalize_topic_name ud b)) (py_split (normalize_topic_name ud a))) * 0.25"
    by (rule hybrid_score_parts [OF ne d])
  show "fst (calculate_similarity ud b a) =
        ratio (normalize_topic_name ud b) (normalize_topic_name ud a) * 0.4 +
        spec_keyword_similarity (spec_keyword_set (normalize_topic_name ud a))
                                (spec_keyword_set (normalize_topic_name ud b)) * 0.35 +
        average (best_matches (py_split (normalize_topic_name ud b)) (py_split (normalize_topic_name ud a)) @
                 best_matches (py_split (normalize_topic_name ud a)) (py_split (normalize_topic_name ud b))) * 0.25"
    using hybrid_score_parts [OF ne(2) ne(1) d']
    by (simp only: spec_keyword_similarity_commute
          [of "spec_keyword_set (normalize_topic_name ud b)" "spec_keyword_set (normalize_topic_name ud a)"])
qed

theorem C4_order_of_arguments_witness:
  "fst (calculate_similarity sample_unicodedata [] (py ''diet'')) = 0 \<and>
   fst (calculate_similarity sample_unicodedata (py ''diet'') []) = 0 \<and>
   py ''Caf'' @ [233, 32, 9749] \<noteq> [] \<and> py ''Cafe'' \<noteq> [] \<and>
   normalize_topic_name sample_unicodedata (py ''Caf'' @ [233, 32, 9749]) =
     normalize_topic_name sample_unicodedata (py ''Cafe'') \<and>
   fst (calculate_similarity sample_unicodedata (py ''Caf'' @ [233, 32, 9749]) (py ''Cafe'')) = 1 \<and>
   fst (calculate_similarity sample_unicodedata (py ''Cafe'') (py ''Caf'' @ [233, 32, 9749])) = 1 \<and>
   py ''tide'' \<noteq> [] \<and> py ''diet'' \<noteq> [] \<and>
   normalize_topic_name sample_unicodedata (py ''tide'') \<noteq>
     normalize_topic_name sample_unicodedata (py ''diet'') \<and>
   ratio (py ''tide'') (py ''diet'') = 1/4 \<and> ratio (py ''diet'') (py ''tide'') = 1/2 \<and>
   best_matches [py ''tide''] [py ''diet''] = [1/4] \<and>
   best_matches [py ''diet''] [py ''tide''] = [1/2] \<and>
   fst (calculate_similarity sample_unicodedata (py ''tide'') (py ''diet'')) =
     (1/4) * 0.4 + 0 * 0.35 + average ([1/4] @ [1/2]) * 0.25 \<and>
   fst (calculate_similarity sample_unicodedata (py ''diet'') (py ''tide'')) =
     (1/2) * 0.4 + 0 * 0.35 + average ([1/2] @ [1/4]) * 0.25"
proof -
  note th = C4_order_of_arguments
  have e: "fst (calculate_similarity sample_unicodedata [] (py ''diet'')) = 0 \<and>
           fst (calculate_similarity sample_unicodedata (py ''diet'') []) = 0"
    by (rule mp [OF conjunct1 [OF th [where a = "[]" and b = "py ''diet''" and ud = sample_unicodedata]]])
       simp
  have nc: "normalize_topic_name sample_unicodedata (py ''Caf'' @ [233, 32, 9749]) = py ''cafe''"
    "normalize_topic_name sample_unicodedata (py ''Cafe'') = py ''cafe''"
    by (simp_all add: normalize_eval)
  have c: "py ''Caf'' @ [233, 32, 9749] \<noteq> [] \<and> py ''Cafe'' \<noteq> [] \<and>
     normalize_topic_name sample_unicodedata (py ''Caf'' @ [233, 32, 9749]) =
       normalize_topic_name sample_unicodedata (py ''Cafe'')"
    unfolding nc by (simp add: py_def)
  have x: "fst (calculate_similarity sample_unicodedata (py ''Caf'' @ [233, 32, 9749]) (py ''Cafe'')) = 1 \<and>
     fst (calculate_similarity sample_unicodedata (py ''Cafe'') (py ''Caf'' @ [233, 32, 9749])) = 1"
    by (rule mp [OF conjunct1 [OF conjunct2 [OF th [where a = "py ''Caf'' @ [233, 32, 9749]"
          and b = "py ''Cafe''" and ud = sample_unicodedata]]] c])
  have n: "normalize_topic_name sample_unicodedata (py ''tide'') = py ''tide''"
    "normalize_topic_name sample_unicodedata (py ''diet'') = py ''diet''"
    by (simp_all add: normalize_eval)
  have h: "py ''tide'' \<noteq> [] \<and> py ''diet'' \<noteq> [] \<and>
     normalize_topic_name sample_unicodedata (py ''tide'') \<noteq>
       normalize_topic_name sample_unicodedata (py ''diet'')"
    unfolding n by (simp add: py_def)
  have r: "ratio (py ''tide'') (py ''diet'') = 1/4" "ratio (py ''diet'') (py ''tide'') = 1/2"
    by (simp_all add: difflib_eval py_def)
  have s: "py_split (py ''tide'') = [py ''tide'']" "py_split (py ''diet'') = [py ''diet'']"
    by (simp_all add: py_split_def py_def py_isspace_def)
  have bm: "best_matches [py ''tide''] [py ''diet''] = [1/4]"
    "best_matches [py ''diet''] [py ''tide''] = [1/2]"
    by (simp_all add: best_matches_def max_default_def r)
  have k: "spec_keyword_similarity (spec_keyword_set (py ''tide'')) (spec_keyword_set (py ''diet'')) = 0"
    unfolding jaccard_keyword_similarity [symmetric] by (simp add: scorer_eval py_def)
  have y: "fst (calculate_similarity sample_unicodedata (py ''tide'') (py ''diet'')) =
       (1/4) * 0.4 + 0 * 0.35 + average ([1/4] @ [1/2]) * 0.25 \<and>
     fst (calculate_similarity sample_unicodedata (py ''diet'') (py ''tide'')) =
       (1/2) * 0.4 + 0 * 0.35 + average ([1/2] @ [1/4]) * 0.25"
    using mp [OF conjunct2 [OF conjunct2 [OF th [where a = "py ''tide''" and b = "py ''diet''"
          and ud = sample_unicodedata]]] h]
    by (simp only: n r s bm k)
  show ?thesis
    by (intro conjI) (rule e[THEN conjunct1] e[THEN conjunct2] c[THEN conjunct1]
        c[THEN conjunct2, THEN conjunct1] c[THEN conjunct2, THEN conjunct2]
        x[THEN conjunct1] x[THEN conjunct2] h[THEN conjunct1] h[THEN conjunct2, THEN conjunct1]
        h[THEN conjunct2, THEN conjunct2] r bm y[THEN conjunct1] y[THEN conjunct2])+
qed

section \<open>Claims about the auditor\<close>

text \<open>
  C2. The spec says that three names A, B, C with A similar to B, B similar to C and A
  not similar to C end up in one cluster. \<^verbatim>\<open>find_duplicates_in_list\<close> compares a
  name only with the first name of the group under construction: with the registry in
  the order A, B, C the only group is [A, B], and C is in no group.
\<close>

theorem C2_three_names_counterexample:
  "fst (are_duplicates default_detector sample_unicodedata (py ''A Daily News'') (py ''Daily News'')) \<and>
   fst (are_duplicates default_detector sample_unicodedata (py ''Daily News'') (py ''Daily News Channel'')) \<and>
   \<not> fst (are_duplicates default_detector sample_unicodedata (py ''A Daily News'') (py ''Daily News Channel'')) \<and>
   find_duplicates_in_list default_detector sample_unicodedata
     [(py ''A Daily News'', 101), (py ''Daily News'', 102), (py ''Daily News Channel'', 103)]
   = [[py ''A Daily News'', py ''Daily News'']]"
  using daily_duplicates groups_first_name_only [OF daily_names_distinct daily_duplicates(1,4)]
  by simp

text \<open>
  C2, as amended. With A similar to B (both ways), B similar to C and A not similar to C,
  a registry in which A comes first (order A, B, C or A, C, B) gives the single group
  [A, B], and C is in no group; a registry in which B comes first (order B, A, C or
  B, C, A) gives one group with all three names. Nothing is said of a registry in which
  C comes first.
\<close>

theorem C2_cluster_around_first_name:
  assumes "distinct [A, B, C]"
    and "fst (are_duplicates self ud A B)" "fst (are_duplicates self ud B A)"
    and "fst (are_duplicates self ud B C)" "\<not> fst (are_duplicates self ud A C)"
  shows "find_duplicates_in_list self ud [(A, a), (B, b), (C, c)] = [[A, B]] \<and>
         find_duplicates_in_list self ud [(A, a), (C, c), (B, b)] = [[A, B]] \<and>
         find_duplicates_in_list self ud [(B, b), (A, a), (C, c)] = [[B, A, C]] \<and>
         find_duplicates_in_list self ud [(B, b), (C, c), (A, a)] = [[B, C, A]]"
  using groups_first_name_only [OF assms(1,2,5)] groups_first_name_only_swapped [OF assms(1,2,5)]
    groups_middle_name_first [OF assms(1,3,4)] groups_middle_name_first_swapped [OF assms(1,3,4)]
  by simp

theorem C2_cluster_around_first_name_witness:
  "distinct [py ''A Daily News'', py ''Daily News'', py ''Daily News Channel''] \<and>
   fst (are_duplicates default_detector sample_unicodedata (py ''A Daily News'') (py ''Daily News'')) \<and>
   fst (are_duplicates default_detector sample_unicodedata (py ''Daily News'') (py ''A Daily News'')) \<and>
   fst (are_duplicates default_detector sample_unicodedata (py ''Daily News'') (py ''Daily News Channel'')) \<and>
   \<not> fst (are_duplicates default_detector sample_unicodedata (py ''A Daily News'') (py ''Daily News Channel'')) \<and>
   find_duplicates_in_list default_detector sample_unicodedata
     [(py ''A Daily News'', 1), (py ''Daily News'', 2), (py ''Daily News Channel'', 3)]
   = [[py ''A Daily News'', py ''Daily News'']] \<and>
   find_duplicates_in_list default_detector sample_unicodedata
     [(py ''A Daily News'', 1), (py ''Daily News Channel'', 3), (py ''Daily News'', 2)]
   = [[py ''A Daily News'', py ''Daily News'']] \<and>
   find_duplicates_in_list default_detector sample_unicodedata
     [(py ''Daily News'', 2), (py ''A Daily News'', 1), (py ''Daily News Channel'', 3)]
   = [[py ''Daily News'', py ''A Daily News'', py ''Daily News Channel'']] \<and>
   find_duplicates_in_list default_detector sample_unicodedata
     [(py ''Daily News'', 2), (py ''Daily News Channel'', 3), (py ''A Daily News'', 1)]
   = [[py ''Daily News'', py ''Daily News Channel'', py ''A Daily News'']]"
  using C2_cluster_around_first_name [OF daily_names_distinct daily_duplicates, of 1 2 3]
    daily_names_distinct daily_duplicates
  by simp

section \<open>Claims about the registry\<close>

text \<open>
  C8. When opening the file raises \<^verbatim>\<open>FileNotFoundError\<close> or parsing it raises
  \<^verbatim>\<open>JSONDecodeError\<close>, \<^verbatim>\<open>load_topics\<close> returns the empty mapping instead of failing.
\<close>

theorem C8_load_topics_missing_or_malformed:
  "load_topics (Inl FileNotFoundError) = Inr (JObject []) \<and>
   load_topics (Inl JSONDecodeError) = Inr (JObject [])"
  by (simp add: load_topics_def)

text \<open>
  C10. When the file parses to a non-empty mapping whose first key begins with
  \<^verbatim>\<open>-\<close>, \<^verbatim>\<open>load_topics\<close> discards the stored mapping and returns the empty one.
\<close>

theorem C10_legacy_format_discarded:
  assumes "kvs \<noteq> []" "startswith (fst (hd kvs)) (py ''-'')"
  shows "load_topics (Inr (JObject kvs)) = Inr (JObject [])"
  using assms by (simp add: load_topics_def)

theorem C10_legacy_format_discarded_witness:
  "[(py ''-1001234'', JString (py ''Daily News'')), (py ''Sports'', JNumber 7)] \<noteq> [] \<and>
   startswith (fst (hd [(py ''-1001234'', JString (py ''Daily News'')), (py ''Sports'', JNumber 7)])) (py ''-'') \<and>
   load_topics (Inr (JObject [(py ''-1001234'', JString (py ''Daily News'')), (py ''Sports'', JNumber 7)]))
     = Inr (JObject [])"
proof -
  have s: "startswith (fst (hd [(py ''-1001234'', JString (py ''Daily News'')), (py ''Sports'', JNumber 7)])) (py ''-'')"
    by (simp add: startswith_def py_def)
  have n: "[(py ''-1001234'', JString (py ''Daily News'')), (py ''Sports'', JNumber 7)] \<noteq> []" by simp
  from C10_legacy_format_discarded [OF n s] s show ?thesis by simp
qed

text \<open>
  C7. When no existing key matches, so that the topic-creation collaborator is called,
  and the call raises, \<^verbatim>\<open>get_or_create_topic\<close> returns \<^verbatim>\<open>None\<close> and leaves
  the topics and the stored file as they were.
\<close>

theorem C7_creation_failure_leaves_registry:
  assumes "find_topic ud (bot_normalize_topic_name ud source_name) (topics self) = None"
    and "create_forum_topic (take 128 source_name) = Inl e"
  shows "fst (get_or_create_topic ud create_forum_topic writable self chat_id source_name) = None \<and>
         topics (snd (get_or_create_topic ud create_forum_topic writable self chat_id source_name)) = topics self \<and>
         topics_file (snd (get_or_create_topic ud create_forum_topic writable self chat_id source_name)) = topics_file self"
  using assms by (simp add: get_or_create_topic_def Let_def)

theorem C7_creation_failure_leaves_registry_witness:
  "find_topic sample_unicodedata (bot_normalize_topic_name sample_unicodedata (py ''Sports'')) (topics sample_bot) = None \<and>
   (\<lambda>name. Inl OtherError :: exn + forum_topic) (take 128 (py ''Sports'')) = Inl OtherError \<and>
   get_or_create_topic sample_unicodedata (\<lambda>name. Inl OtherError) True sample_bot (-1001) (py ''Sports'')
     = (None, sample_bot\<lparr>created := [py ''Sports'']\<rparr>)"
proof -
  have f: "find_topic sample_unicodedata (bot_normalize_topic_name sample_unicodedata (py ''Sports'')) (topics sample_bot) = None"
    by (simp add: sample_bot_def normalize_eval)
  have c: "(\<lambda>name. Inl OtherError :: exn + forum_topic) (take 128 (py ''Sports'')) = Inl OtherError" by simp
  have g: "get_or_create_topic sample_unicodedata (\<lambda>name. Inl OtherError) True sample_bot (-1001) (py ''Sports'')
     = (None, sample_bot\<lparr>created := [py ''Sports'']\<rparr>)"
    using f by (simp add: get_or_create_topic_def Let_def sample_bot_def py_def)
  from C7_creation_failure_leaves_registry [of sample_unicodedata "py ''Sports''" sample_bot "\<lambda>name. Inl OtherError" OtherError True "-1001", OF f c] f g
  show ?thesis by simp
qed

text \<open>
  C1. The spec says that at threshold 0.85 a new name whose best score against the
  existing keys is 0.86 resolves to the existing topic. \<^verbatim>\<open>get_or_create_topic\<close> never
  computes a score: the name \<^verbatim>\<open>Music Mix Group\<close> scores exactly 0.86 against the
  only key \<^verbatim>\<open>Music Mix\<close>, the detector reports that topic as a duplicate, and the bot
  still creates a second topic and stores it.
\<close>

theorem C1_score_086_counterexample:
  "similarity_threshold default_detector = 0.85 \<and>
   fst (calculate_similarity sample_unicodedata (py ''Music Mix Group'') (py ''Music Mix'')) = 0.86 \<and>
   similar_topic (check_against_existing default_detector sample_unicodedata
                    (py ''Music Mix Group'') (topics music_bot)) = Some (py ''Music Mix'') \<and>
   get_or_create_topic sample_unicodedata platform_102 True music_bot (-1001) (py ''Music Mix Group'') =
   (Some 102,
    \<lparr>topics = [(py ''Music Mix'', 101), (py ''Music Mix Group'', 102)],
     topics_file = Some [(py ''Music Mix'', 101), (py ''Music Mix Group'', 102)],
     created = [py ''Music Mix Group'']\<rparr>)"
proof -
  have "similarity_threshold default_detector = 0.85" by (simp add: default_detector_def)
  then show ?thesis by (simp add: music_check music_resolve score_mix_group)
qed

text \<open>
  C1, as amended. \<^verbatim>\<open>get_or_create_topic\<close> returns the handle of the first entry whose
  canonical form equals that of the new name, without calling the platform or changing
  the bot. For a name whose canonical form differs from that of every key it calls the
  platform, and when the platform returns a topic with a \<^verbatim>\<open>message_thread_id\<close> it
  returns that id, appends the raw name with it to the registry and saves the registry.
  No score and no threshold enter either case.
\<close>

theorem C1_resolve_by_canonical_form:
  "(topics self = pre @ (k, v) # post \<and>
    (\<forall>(k', v') \<in> set pre. bot_normalize_topic_name ud k' \<noteq> bot_normalize_topic_name ud source_name) \<and>
    bot_normalize_topic_name ud k = bot_normalize_topic_name ud source_name
    \<longrightarrow> get_or_create_topic ud create_forum_topic writable self chat_id source_name = (Some v, self)) \<and>
   ((\<forall>(k', v') \<in> set (topics self). bot_normalize_topic_name ud k' \<noteq> bot_normalize_topic_name ud source_name) \<and>
    create_forum_topic (take 128 source_name) = Inr topic \<and> attr_message_thread_id topic = Some t
    \<longrightarrow> get_or_create_topic ud create_forum_topic writable self chat_id source_name =
         (Some t, save_topics writable
            (self\<lparr>created := created self @ [take 128 source_name],
                  topics := topics self @ [(source_name, t)]\<rparr>)))"
  using resolve_existing[of self pre k v post ud source_name create_forum_topic writable chat_id]
    resolve_new[of self ud source_name create_forum_topic topic t writable chat_id]
  by blast

theorem C1_resolve_by_canonical_form_witness:
  "topics music_bot = [] @ (py ''Music Mix'', 101) # [] \<and>
   bot_normalize_topic_name sample_unicodedata (py ''Music Mix'') =
     bot_normalize_topic_name sample_unicodedata (py ''Music Mix '' @ [128293]) \<and>
   get_or_create_topic sample_unicodedata platform_102 True music_bot (-1001) (py ''Music Mix '' @ [128293])
     = (Some 101, music_bot) \<and>
   fst (calculate_similarity sample_unicodedata (py ''Hot Hot'') (py ''Hot'')) = 0.84 \<and>
   list_all (\<lambda>(k', v'). bot_normalize_topic_name sample_unicodedata k' \<noteq>
        bot_normalize_topic_name sample_unicodedata (py ''Hot Hot'')) (topics hot_bot) \<and>
   platform_102 (take 128 (py ''Hot Hot'')) =
      Inr \<lparr>attr_message_thread_id = Some 102, attr_thread_id = None, attr_id = None\<rparr> \<and>
   get_or_create_topic sample_unicodedata platform_102 True hot_bot (-1001) (py ''Hot Hot'')
     = (Some 102, \<lparr>topics = [(py ''Hot'', 101), (py ''Hot Hot'', 102)],
                    topics_file = Some [(py ''Hot'', 101), (py ''Hot Hot'', 102)],
                    created = [py ''Hot Hot'']\<rparr>)"
proof -
  have n: "bot_normalize_topic_name sample_unicodedata (py ''Music Mix'') = py ''music mix''"
    "bot_normalize_topic_name sample_unicodedata (py ''Music Mix '' @ [128293]) = py ''music mix''"
    "bot_normalize_topic_name sample_unicodedata (py ''Hot'') = py ''hot''"
    "bot_normalize_topic_name sample_unicodedata (py ''Hot Hot'') = py ''hot hot''"
    by (simp_all add: normalize_eval)
  have a: "topics music_bot = [] @ (py ''Music Mix'', 101) # [] \<and>
    (\<forall>(k', v') \<in> set []. bot_normalize_topic_name sample_unicodedata k' \<noteq>
        bot_normalize_topic_name sample_unicodedata (py ''Music Mix '' @ [128293])) \<and>
    bot_normalize_topic_name sample_unicodedata (py ''Music Mix'') =
      bot_normalize_topic_name sample_unicodedata (py ''Music Mix '' @ [128293])"
    by (simp add: music_bot_def n)
  have b: "(\<forall>(k', v') \<in> set (topics hot_bot). bot_normalize_topic_name sample_unicodedata k' \<noteq>
        bot_normalize_topic_name sample_unicodedata (py ''Hot Hot'')) \<and>
    platform_102 (take 128 (py ''Hot Hot'')) =
      Inr \<lparr>attr_message_thread_id = Some 102, attr_thread_id = None, attr_id = None\<rparr> \<and>
    attr_message_thread_id \<lparr>attr_message_thread_id = Some 102, attr_thread_id = None, attr_id = None\<rparr> = Some 102"
  proof -
    have "py ''hot'' \<noteq> py ''hot hot''" by (simp add: py_def)
    then show ?thesis by (simp add: hot_bot_def n platform_102_def)
  qed
  have t: "take 128 (py ''Hot Hot'') = py ''Hot Hot''" by (simp add: py_def)
  have s: "save_topics True (hot_bot\<lparr>created := created hot_bot @ [py ''Hot Hot''],
              topics := topics hot_bot @ [(py ''Hot Hot'', 102)]\<rparr>) =
     \<lparr>topics = [(py ''Hot'', 101), (py ''Hot Hot'', 102)],
      topics_file = Some [(py ''Hot'', 101), (py ''Hot Hot'', 102)],
      created = [py ''Hot Hot'']\<rparr>"
    by (simp add: save_topics_def hot_bot_def)
  have r1: "get_or_create_topic sample_unicodedata platform_102 True music_bot (-1001) (py ''Music Mix '' @ [128293])
     = (Some 101, music_bot)"
    by (rule mp [OF conjunct1 [OF C1_resolve_by_canonical_form
        [where self = music_bot and ud = sample_unicodedata and create_forum_topic = platform_102
           and source_name = "py ''Music Mix '' @ [128293]" and pre = "[]" and post = "[]"
           and k = "py ''Music Mix''" and v = 101 and writable = True and chat_id = "-1001"]] a])
  have r2': "get_or_create_topic sample_unicodedata platform_102 True hot_bot (-1001) (py ''Hot Hot'')
     = (Some 102, save_topics True (hot_bot\<lparr>created := created hot_bot @ [take 128 (py ''Hot Hot'')],
              topics := topics hot_bot @ [(py ''Hot Hot'', 102)]\<rparr>))"
    by (rule mp [OF conjunct2 [OF C1_resolve_by_canonical_form
        [where self = hot_bot and ud = sample_unicodedata and create_forum_topic = platform_102
           and source_name = "py ''Hot Hot''" and t = 102 and writable = True and chat_id = "-1001"
           and topic = "\<lparr>attr_message_thread_id = Some 102, attr_thread_id = None, attr_id = None\<rparr>"]] b])
  have r2: "get_or_create_topic sample_unicodedata platform_102 True hot_bot (-1001) (py ''Hot Hot'')
     = (Some 102, \<lparr>topics = [(py ''Hot'', 101), (py ''Hot Hot'', 102)],
                    topics_file = Some [(py ''Hot'', 101), (py ''Hot Hot'', 102)],
                    created = [py ''Hot Hot'']\<rparr>)"
    using r2' by (simp only: t s)
  have h: "fst (calculate_similarity sample_unicodedata (py ''Hot Hot'') (py ''Hot'')) = 0.84"
    by (simp add: score_hot)
  have la: "list_all (\<lambda>(k', v'). bot_normalize_topic_name sample_unicodedata k' \<noteq>
        bot_normalize_topic_name sample_unicodedata (py ''Hot Hot'')) (topics hot_bot)"
    using b[THEN conjunct1] by (simp add: list_all_iff)
  show ?thesis
    by (intro conjI) (rule a[THEN conjunct1] a[THEN conjunct2, THEN conjunct2]
        r1 h la b[THEN conjunct2, THEN conjunct1] r2)+
qed


end
